theory Spec2Isabelle
  imports Main "HOL-Library.Sublist"
begin

section \<open>Data model of \<^verbatim>\<open>functions/src/index.ts\<close>\<close>

text \<open>
  The credential record read from the store.  The interface \<^verbatim>\<open>ZohoCredentials\<close> declares
  every field, but the code reads them defensively (\<^verbatim>\<open>dbData?.ACCESS_TOKEN\<close>,
  \<^verbatim>\<open>dbData.EXPIRY_TIME || 0\<close>), so each field may be absent: \<open>None\<close>.  A store node
  without children reads as \<^verbatim>\<open>null\<close>; every access to it is guarded, so it behaves as the
  record whose fields are all \<open>None\<close>.  Timestamps are epoch milliseconds, exact integers
  in the range the code works in.
\<close>

record ZohoCredentials =
  CLIENT_ID :: "string option"
  CLIENT_SECRET :: "string option"
  AUTHORIZATION_CODE :: "string option"
  ACCESS_TOKEN :: "string option"
  REFRESH_TOKEN :: "string option"
  ACCOUNTS_URL :: "string option"
  API_DOMAIN :: "string option"
  EXPIRY_TIME :: "int option"

record AccessTokenResponse =
  access_token :: string
  refresh_token :: string
  api_domain :: string
  token_type :: string
  expires_in :: int

record ReqParams =
  phone :: string
  tag :: string
  req_id :: string
  tagFilter :: string

text \<open>A tag as the CRM returns it, and a lead with the two fields the code reads
  (\<^verbatim>\<open>id\<close> and \<^verbatim>\<open>Tag\<close>, the latter possibly absent or null).\<close>

record crm_tag =
  name :: string

record lead =
  lead_id :: string
  Tag :: "crm_tag list option"

text \<open>The body of a CRM response: its \<^verbatim>\<open>data\<close> member, possibly absent.\<close>

record api_response =
  data :: "lead list option"

text \<open>The request body \<^verbatim>\<open>{ data: [{ Tag: tags }] }\<close> of an update.\<close>

record lead_update =
  upd_Tag :: "crm_tag list"

text \<open>The part of \<^verbatim>\<open>AxiosRequestConfig\<close> the program touches.  An object is a finite
  map from keys to values; an absent member is \<open>None\<close>.\<close>

record AxiosRequestConfig =
  http_method :: "string option"
  url :: "string option"
  baseURL :: "string option"
  params :: "(string \<times> string) list option"
  req_data :: "lead_update list option"
  headers :: "(string \<rightharpoonup> string) option"

text \<open>A form payload is an object literal: keys in order, a value \<^verbatim>\<open>undefined\<close> when the
  credential field it was read from is absent.\<close>

type_synonym form_payload = "(string \<times> string option) list"

datatype error =
    StorageFailure string
  | AuthenticationFailure string
  | ApiCallFailure string

section \<open>The outside world\<close>

text \<open>
  Every call that leaves the process is recorded, in order, in a trace.  What the outside
  answers is given by an environment of oracles, each a function of the history of calls
  issued so far (so that the k-th call may fail, time may pass, and a CRM may answer
  with what was written to it before).  The credential store is the one collaborator
  with a state of its own in the model; only this program writes to it.  A failure is
  logged and thrown again unchanged by every function that catches it, so it is the
  error value the function returns; the calls of the logger themselves are not recorded.
\<close>

datatype event =
    DbRead
  | DbUpdate ZohoCredentials
  | TokenPost form_payload
  | ApiCall AxiosRequestConfig

record env =
  clock :: "event list \<Rightarrow> int"
  read_fault :: "event list \<Rightarrow> string option"
  update_fault :: "event list \<Rightarrow> ZohoCredentials \<Rightarrow> string option"
  token_endpoint :: "event list \<Rightarrow> form_payload \<Rightarrow> string + AccessTokenResponse"
  crm_api :: "event list \<Rightarrow> AxiosRequestConfig \<Rightarrow> string + api_response"

record world =
  db :: ZohoCredentials
  trace :: "event list"

type_synonym 'a outcome = "(error + 'a) \<times> world"

definition redirectUri :: string where
  "redirectUri = ''https://www.zoho.com''"

definition apiUrl :: string where
  "apiUrl = ''https://www.zohoapis.com/crm/v5''"

text \<open>JavaScript truthiness of a possibly absent string: absent and empty are falsy.\<close>

definition truthy :: "string option \<Rightarrow> bool" where
  "truthy v = (case v of None \<Rightarrow> False | Some s \<Rightarrow> s \<noteq> [])"

text \<open>\<^verbatim>\<open>s.startsWith(p)\<close>.\<close>

fun startsWith :: "string \<Rightarrow> string \<Rightarrow> bool" where
  "startsWith s [] = True"
| "startsWith [] (p # ps) = False"
| "startsWith (c # s) (p # ps) = (c = p \<and> startsWith s ps)"

section \<open>Credential store\<close>

text \<open>An update object names some fields (the others \<open>None\<close>); the store's partial
  update overwrites the named fields and keeps the rest.\<close>

definition no_updates :: ZohoCredentials where
  "no_updates = \<lparr>CLIENT_ID = None, CLIENT_SECRET = None, AUTHORIZATION_CODE = None,
     ACCESS_TOKEN = None, REFRESH_TOKEN = None, ACCOUNTS_URL = None, API_DOMAIN = None,
     EXPIRY_TIME = None\<rparr>"

definition merge_field :: "'a option \<Rightarrow> 'a option \<Rightarrow> 'a option" where
  "merge_field old new = (case new of None \<Rightarrow> old | Some v \<Rightarrow> Some v)"

definition merge_updates :: "ZohoCredentials \<Rightarrow> ZohoCredentials \<Rightarrow> ZohoCredentials" where
  "merge_updates d u =
     \<lparr>CLIENT_ID = merge_field (CLIENT_ID d) (CLIENT_ID u),
      CLIENT_SECRET = merge_field (CLIENT_SECRET d) (CLIENT_SECRET u),
      AUTHORIZATION_CODE = merge_field (AUTHORIZATION_CODE d) (AUTHORIZATION_CODE u),
      ACCESS_TOKEN = merge_field (ACCESS_TOKEN d) (ACCESS_TOKEN u),
      REFRESH_TOKEN = merge_field (REFRESH_TOKEN d) (REFRESH_TOKEN u),
      ACCOUNTS_URL = merge_field (ACCOUNTS_URL d) (ACCOUNTS_URL u),
      API_DOMAIN = merge_field (API_DOMAIN d) (API_DOMAIN u),
      EXPIRY_TIME = merge_field (EXPIRY_TIME d) (EXPIRY_TIME u)\<rparr>"

definition readDbData :: "env \<Rightarrow> world \<Rightarrow> ZohoCredentials outcome" where
  "readDbData e w =
     (let w' = w\<lparr>trace := trace w @ [DbRead]\<rparr> in
      case read_fault e (trace w) of
        Some msg \<Rightarrow> (Inl (StorageFailure msg), w')
      | None \<Rightarrow> (Inr (db w), w'))"

definition updateDbData :: "env \<Rightarrow> ZohoCredentials \<Rightarrow> world \<Rightarrow> unit outcome" where
  "updateDbData e updates w =
     (let w' = w\<lparr>trace := trace w @ [DbUpdate updates]\<rparr> in
      case update_fault e (trace w) updates of
        Some msg \<Rightarrow> (Inl (StorageFailure msg), w')
      | None \<Rightarrow> (Inr (), w'\<lparr>db := merge_updates (db w) updates\<rparr>))"

section \<open>Token lifecycle\<close>

definition generateApiRequestConfig ::
    "AxiosRequestConfig \<Rightarrow> string option \<Rightarrow> AxiosRequestConfig" where
  "generateApiRequestConfig options token =
     options\<lparr>baseURL := Some apiUrl,
       headers := Some
         ([''Content-Type'' \<mapsto> ''application/json'',
           ''Authorization'' \<mapsto>
              ''Zoho-oauthtoken '' @ (case token of None \<Rightarrow> ''undefined'' | Some t \<Rightarrow> t)]
          ++ (case headers options of None \<Rightarrow> Map.empty | Some h \<Rightarrow> h))\<rparr>"

definition getAccessToken :: "env \<Rightarrow> ZohoCredentials \<Rightarrow> world \<Rightarrow> unit outcome" where
  "getAccessToken e dbData w =
     (let payload =
            [(''client_id'', CLIENT_ID dbData),
             (''client_secret'', CLIENT_ID dbData),
             (''redirect_uri'', Some redirectUri),
             (''code'', AUTHORIZATION_CODE dbData),
             (''grant_type'', Some ''authorization_code'')];
          w1 = w\<lparr>trace := trace w @ [TokenPost payload]\<rparr>
      in case token_endpoint e (trace w) payload of
           Inl msg \<Rightarrow> (Inl (AuthenticationFailure msg), w1)
         | Inr response \<Rightarrow>
             updateDbData e
               (no_updates\<lparr>ACCESS_TOKEN := Some (access_token response),
                  REFRESH_TOKEN := Some (refresh_token response),
                  EXPIRY_TIME := Some (clock e (trace w1) + expires_in response * 1000)\<rparr>)
               w1)"

definition refreshAccessToken :: "env \<Rightarrow> ZohoCredentials \<Rightarrow> world \<Rightarrow> unit outcome" where
  "refreshAccessToken e dbData w =
     (let payload =
            [(''client_id'', CLIENT_ID dbData),
             (''client_secret'', CLIENT_SECRET dbData),
             (''refresh_token'', REFRESH_TOKEN dbData),
             (''grant_type'', Some ''refresh_token'')];
          w1 = w\<lparr>trace := trace w @ [TokenPost payload]\<rparr>
      in case token_endpoint e (trace w) payload of
           Inl msg \<Rightarrow> (Inl (AuthenticationFailure msg), w1)
         | Inr response \<Rightarrow>
             updateDbData e
               (no_updates\<lparr>ACCESS_TOKEN := Some (access_token response),
                  EXPIRY_TIME := Some (clock e (trace w1) + expires_in response * 1000)\<rparr>)
               w1)"

text \<open>The staleness test of \<^verbatim>\<open>makeApiRequest\<close>:
  \<^verbatim>\<open>!dbData?.ACCESS_TOKEN || Date.now() >= (dbData.EXPIRY_TIME || 0)\<close>.\<close>

definition stale :: "ZohoCredentials \<Rightarrow> int \<Rightarrow> bool" where
  "stale dbData now =
     (\<not> truthy (ACCESS_TOKEN dbData)
      \<or> now \<ge> (case EXPIRY_TIME dbData of None \<Rightarrow> 0 | Some t \<Rightarrow> t))"

definition makeApiRequest :: "env \<Rightarrow> AxiosRequestConfig \<Rightarrow> world \<Rightarrow> api_response outcome" where
  "makeApiRequest e options w =
     (case readDbData e w of
        (Inl err, w1) \<Rightarrow> (Inl err, w1)
      | (Inr dbData, w1) \<Rightarrow>
          (case (if stale dbData (clock e (trace w1))
                 then (if \<not> truthy (REFRESH_TOKEN dbData)
                       then getAccessToken e dbData w1
                       else refreshAccessToken e dbData w1)
                 else (Inr (), w1)) of
             (Inl err, w2) \<Rightarrow> (Inl err, w2)
           | (Inr _, w2) \<Rightarrow>
               (case readDbData e w2 of
                  (Inl err, w3) \<Rightarrow> (Inl err, w3)
                | (Inr latestDbData, w3) \<Rightarrow>
                    (let config = generateApiRequestConfig options (ACCESS_TOKEN latestDbData);
                         w4 = w3\<lparr>trace := trace w3 @ [ApiCall config]\<rparr>
                     in case crm_api e (trace w3) config of
                          Inl msg \<Rightarrow> (Inl (ApiCallFailure msg), w4)
                        | Inr body \<Rightarrow> (Inr body, w4)))))"

section \<open>Lead operations\<close>

definition no_options :: AxiosRequestConfig where
  "no_options = \<lparr>http_method = None, url = None, baseURL = None, params = None,
     req_data = None, headers = None\<rparr>"

definition findByLeadId :: "env \<Rightarrow> string \<Rightarrow> world \<Rightarrow> api_response outcome" where
  "findByLeadId e leadId w =
     makeApiRequest e
       (no_options\<lparr>http_method := Some ''GET'', url := Some (''/Leads/'' @ leadId)\<rparr>) w"

definition findByPhone :: "env \<Rightarrow> string \<Rightarrow> world \<Rightarrow> api_response outcome" where
  "findByPhone e phonePrefix w =
     makeApiRequest e
       (no_options\<lparr>http_method := Some ''GET'', url := Some ''/Leads/search'',
          params := Some [(''criteria'', ''Phone:starts_with:'' @ phonePrefix),
                          (''fields'', ''id,Phone,Full_Name,Tag'')]\<rparr>) w"

definition updateLeadTag :: "env \<Rightarrow> string \<Rightarrow> crm_tag list \<Rightarrow> world \<Rightarrow> api_response outcome" where
  "updateLeadTag e leadId tags w =
     makeApiRequest e
       (no_options\<lparr>http_method := Some ''PUT'', url := Some (''/Leads/'' @ leadId),
          req_data := Some [\<lparr>upd_Tag = tags\<rparr>]\<rparr>) w"

section \<open>Tag-filter workflows\<close>

text \<open>The three statements both workflows repeat word for word:
  \<^verbatim>\<open>const tags = lead.Tag || [];\<close>
  \<^verbatim>\<open>const updatedTags = tags.filter((tag) => !tag.name.startsWith(tagFilter));\<close>
  \<^verbatim>\<open>updatedTags.push({ name: tag });\<close>\<close>

definition updatedTags :: "string \<Rightarrow> string \<Rightarrow> crm_tag list option \<Rightarrow> crm_tag list" where
  "updatedTags tg flt leadTag =
     (let tags = (case leadTag of None \<Rightarrow> [] | Some ts \<Rightarrow> ts)
      in filter (\<lambda>t. \<not> startsWith (name t) flt) tags @ [\<lparr>name = tg\<rparr>])"

definition modifyLeadByLeadId :: "env \<Rightarrow> ReqParams \<Rightarrow> world \<Rightarrow> nat outcome" where
  "modifyLeadByLeadId e reqBody w =
     (case findByLeadId e (req_id reqBody) w of
        (Inl err, w1) \<Rightarrow> (Inl err, w1)
      | (Inr resp, w1) \<Rightarrow>
          (case data resp of
             None \<Rightarrow> (Inr 400, w1)
           | Some [] \<Rightarrow> (Inr 400, w1)
           | Some (lead0 # _) \<Rightarrow>
               (case updateLeadTag e (lead_id lead0)
                       (updatedTags (tag reqBody) (tagFilter reqBody) (Tag lead0)) w1 of
                  (Inl err, w2) \<Rightarrow> (Inl err, w2)
                | (Inr _, w2) \<Rightarrow> (Inr 200, w2))))"

text \<open>The \<^verbatim>\<open>for (const lead of data)\<close> loop: the first failing update ends it.\<close>

fun forEachLead :: "env \<Rightarrow> string \<Rightarrow> string \<Rightarrow> lead list \<Rightarrow> world \<Rightarrow> unit outcome" where
  "forEachLead e tg flt [] w = (Inr (), w)"
| "forEachLead e tg flt (l # rest) w =
     (case updateLeadTag e (lead_id l) (updatedTags tg flt (Tag l)) w of
        (Inl err, w1) \<Rightarrow> (Inl err, w1)
      | (Inr _, w1) \<Rightarrow> forEachLead e tg flt rest w1)"

definition modifyLeadsByPhoneAndTag :: "env \<Rightarrow> ReqParams \<Rightarrow> world \<Rightarrow> nat outcome" where
  "modifyLeadsByPhoneAndTag e reqBody w =
     (case findByPhone e (phone reqBody) w of
        (Inl err, w1) \<Rightarrow> (Inl err, w1)
      | (Inr resp, w1) \<Rightarrow>
          (case data resp of
             None \<Rightarrow> (Inr 400, w1)
           | Some leads \<Rightarrow>
               (case forEachLead e (tag reqBody) (tagFilter reqBody) leads w1 of
                  (Inl err, w2) \<Rightarrow> (Inl err, w2)
                | (Inr _, w2) \<Rightarrow> (Inr 200, w2))))"

section \<open>Reading the trace\<close>

text \<open>The token exchanges and the CRM requests among a sequence of events, in order.\<close>

primrec token_posts :: "event list \<Rightarrow> form_payload list" where
  "token_posts [] = []"
| "token_posts (ev # evs) =
     (case ev of TokenPost p \<Rightarrow> p # token_posts evs | _ \<Rightarrow> token_posts evs)"

primrec api_calls :: "event list \<Rightarrow> AxiosRequestConfig list" where
  "api_calls [] = []"
| "api_calls (ev # evs) =
     (case ev of ApiCall c \<Rightarrow> c # api_calls evs | _ \<Rightarrow> api_calls evs)"

text \<open>The updates sent to the CRM: path and body of every \<^verbatim>\<open>PUT\<close> request.\<close>

definition put_requests :: "event list \<Rightarrow> (string option \<times> lead_update list option) list" where
  "put_requests evs =
     map (\<lambda>c. (url c, req_data c)) (filter (\<lambda>c. http_method c = Some ''PUT'') (api_calls evs))"

text \<open>The update of one lead, as \<^verbatim>\<open>updateLeadTag\<close> sends it.\<close>

definition put_of :: "string \<Rightarrow> crm_tag list \<Rightarrow> string option \<times> lead_update list option" where
  "put_of leadId tags = (Some (''/Leads/'' @ leadId), Some [\<lparr>upd_Tag = tags\<rparr>])"

text \<open>The events issued between two worlds of one run.\<close>

definition since :: "world \<Rightarrow> world \<Rightarrow> event list" where
  "since w w' = drop (length (trace w)) (trace w')"

definition grant_type_of :: "form_payload \<Rightarrow> string option option" where
  "grant_type_of p = map_of p ''grant_type''"

definition count_named :: "string \<Rightarrow> crm_tag list \<Rightarrow> nat" where
  "count_named tg ts = length (filter (\<lambda>t. name t = tg) ts)"

text \<open>The conditional of \<^verbatim>\<open>makeApiRequest\<close> (the token exchange when the stored token is
  stale), named so that lemmas can speak about it.\<close>

definition tokenStep :: "env \<Rightarrow> ZohoCredentials \<Rightarrow> world \<Rightarrow> unit outcome" where
  "tokenStep e dbData w1 =
     (if stale dbData (clock e (trace w1))
      then (if \<not> truthy (REFRESH_TOKEN dbData)
            then getAccessToken e dbData w1
            else refreshAccessToken e dbData w1)
      else (Inr (), w1))"

text \<open>Every update of the given leads, taken in order from world \<open>w\<close>, succeeds, and the
  last one leaves world \<open>w'\<close>.\<close>

fun updates_succeed :: "env \<Rightarrow> string \<Rightarrow> string \<Rightarrow> lead list \<Rightarrow> world \<Rightarrow> world \<Rightarrow> bool" where
  "updates_succeed e tg flt [] w w' = (w' = w)"
| "updates_succeed e tg flt (l # ls) w w' =
     (case updateLeadTag e (lead_id l) (updatedTags tg flt (Tag l)) w of
        (Inl _, _) \<Rightarrow> False
      | (Inr _, w1) \<Rightarrow> updates_succeed e tg flt ls w1 w')"

text \<open>The tag list in the body of the last update request among the events, if there
  is one.\<close>

definition last_written :: "event list \<Rightarrow> crm_tag list option" where
  "last_written evs =
     (case rev (put_requests evs) of
        (_, Some [u]) # _ \<Rightarrow> Some (upd_Tag u)
      | _ \<Rightarrow> None)"

text \<open>An environment in which nothing outside the program fails: the store reads and
  writes, the token endpoint answers every exchange and the CRM every request.\<close>

definition cooperative :: "env \<Rightarrow> bool" where
  "cooperative e \<longleftrightarrow>
     (\<forall>h. read_fault e h = None) \<and>
     (\<forall>h u. update_fault e h u = None) \<and>
     (\<forall>h p. \<exists>a. token_endpoint e h p = Inr a) \<and>
     (\<forall>h c. \<exists>b. crm_api e h c = Inr b)"

section \<open>Scripted environments\<close>

text \<open>Concrete surroundings on which the theorems below are exercised: a clock that
  starts at \<open>t0\<close> and ticks once per outside call, a store that never fails, a token
  endpoint with one fixed answer, and a CRM given as a script.\<close>

definition script_env ::
    "int \<Rightarrow> (string + AccessTokenResponse) \<Rightarrow>
     (event list \<Rightarrow> AxiosRequestConfig \<Rightarrow> string + api_response) \<Rightarrow> env" where
  "script_env t0 answer crm =
     \<lparr>clock = (\<lambda>h. t0 + int (length h)),
      read_fault = (\<lambda>h. None),
      update_fault = (\<lambda>h u. None),
      token_endpoint = (\<lambda>h p. answer),
      crm_api = crm\<rparr>"

definition token_answer :: AccessTokenResponse where
  "token_answer = \<lparr>access_token = ''at-1'', refresh_token = ''rt-1'',
     api_domain = ''https://www.zohoapis.com'', token_type = ''Bearer'', expires_in = 3600\<rparr>"

text \<open>A CRM that answers every \<^verbatim>\<open>GET\<close> with the given \<^verbatim>\<open>data\<close> and rejects the updates
  of the listed paths.\<close>

definition crm_script ::
    "lead list option \<Rightarrow> string list \<Rightarrow> event list \<Rightarrow> AxiosRequestConfig \<Rightarrow> string + api_response" where
  "crm_script found failing h c =
     (if http_method c = Some ''GET'' then Inr \<lparr>data = found\<rparr>
      else if url c \<in> set (map Some failing) then Inl ''Request failed with status code 500''
      else Inr \<lparr>data = None\<rparr>)"

text \<open>A CRM holding one lead, which answers a lookup with the tags last written to it.\<close>

definition crm_memory ::
    "string \<Rightarrow> crm_tag list option \<Rightarrow> event list \<Rightarrow> AxiosRequestConfig \<Rightarrow> string + api_response" where
  "crm_memory leadId initial h c =
     (if http_method c = Some ''GET''
      then Inr \<lparr>data = Some [\<lparr>lead_id = leadId,
                  Tag = (case rev (put_requests h) of
                           (_, Some [u]) # _ \<Rightarrow> Some (upd_Tag u)
                         | _ \<Rightarrow> initial)\<rparr>]\<rparr>
      else Inr \<lparr>data = None\<rparr>)"

definition live_credentials :: ZohoCredentials where
  "live_credentials =
     \<lparr>CLIENT_ID = Some ''cid'', CLIENT_SECRET = Some ''secret'',
      AUTHORIZATION_CODE = Some ''code-1'', ACCESS_TOKEN = Some ''at-0'',
      REFRESH_TOKEN = Some ''rt-0'', ACCOUNTS_URL = None, API_DOMAIN = None,
      EXPIRY_TIME = Some 900000\<rparr>"

definition start :: "ZohoCredentials \<Rightarrow> world" where
  "start d = \<lparr>db = d, trace = []\<rparr>"

text \<open>The request of the specification's example, and leads to run it on.\<close>

definition retag_request :: ReqParams where
  "retag_request = \<lparr>phone = ''555'', tag = ''status:contacted'', req_id = ''42'',
     tagFilter = ''status:''\<rparr>"

definition lead_42 :: lead where
  "lead_42 = \<lparr>lead_id = ''42'', Tag = Some [\<lparr>name = ''status:new''\<rparr>, \<lparr>name = ''source:web''\<rparr>]\<rparr>"

definition three_leads :: "lead list" where
  "three_leads =
     [\<lparr>lead_id = ''a'', Tag = Some [\<lparr>name = ''status:new''\<rparr>, \<lparr>name = ''source:web''\<rparr>]\<rparr>,
      \<lparr>lead_id = ''b'', Tag = None\<rparr>,
      \<lparr>lead_id = ''c'', Tag = Some []\<rparr>]"

section \<open>Basic facts about traces and single steps\<close>

lemma token_posts_append [simp]: "token_posts (xs @ ys) = token_posts xs @ token_posts ys"
  by (induction xs) (auto split: event.splits)

lemma api_calls_append [simp]: "api_calls (xs @ ys) = api_calls xs @ api_calls ys"
  by (induction xs) (auto split: event.splits)

lemma put_requests_append [simp]: "put_requests (xs @ ys) = put_requests xs @ put_requests ys"
  by (simp add: put_requests_def)

lemma put_requests_no_calls: "api_calls evs = [] \<Longrightarrow> put_requests evs = []"
  by (simp add: put_requests_def)

lemma since_append [simp]: "trace w' = trace w @ evs \<Longrightarrow> since w w' = evs"
  by (simp add: since_def)

lemma since_self [simp]: "since w w = []"
  by (simp add: since_def)

lemma startsWith_prefix: "startsWith s p = prefix p s"
  by (induction s p rule: startsWith.induct) auto

lemma readDbData_run:
  "readDbData e w = (r, w') \<Longrightarrow>
     w' = w\<lparr>trace := trace w @ [DbRead]\<rparr> \<and>
     r = (case read_fault e (trace w) of Some m \<Rightarrow> Inl (StorageFailure m) | None \<Rightarrow> Inr (db w))"
  by (auto simp: readDbData_def Let_def split: option.splits)

lemma updateDbData_run:
  "updateDbData e u w = (r, w') \<Longrightarrow>
     trace w' = trace w @ [DbUpdate u] \<and>
     (case r of Inl err \<Rightarrow> db w' = db w | Inr _ \<Rightarrow> db w' = merge_updates (db w) u)"
  by (auto simp: updateDbData_def Let_def split: option.splits)

lemma getAccessToken_trace:
  "getAccessToken e d w = (r, w') \<Longrightarrow>
     \<exists>p evs. trace w' = trace w @ TokenPost p # evs \<and> token_posts evs = [] \<and> api_calls evs = []
       \<and> grant_type_of p = Some (Some ''authorization_code'')"
  by (auto simp: getAccessToken_def updateDbData_def grant_type_of_def Let_def split: option.splits sum.splits)

lemma refreshAccessToken_trace:
  "refreshAccessToken e d w = (r, w') \<Longrightarrow>
     \<exists>p evs. trace w' = trace w @ TokenPost p # evs \<and> token_posts evs = [] \<and> api_calls evs = []
       \<and> grant_type_of p = Some (Some ''refresh_token'')"
  by (auto simp: refreshAccessToken_def updateDbData_def grant_type_of_def Let_def split: option.splits sum.splits)

lemma tokenStep_fresh: "\<not> stale d (clock e (trace w)) \<Longrightarrow> tokenStep e d w = (Inr (), w)"
  by (simp add: tokenStep_def)

lemma tokenStep_stale:
  assumes "stale d (clock e (trace w))" and "tokenStep e d w = (r, w')"
  shows "\<exists>p evs. trace w' = trace w @ TokenPost p # evs \<and> token_posts evs = [] \<and> api_calls evs = []
       \<and> grant_type_of p =
           Some (Some (if truthy (REFRESH_TOKEN d) then ''refresh_token'' else ''authorization_code''))"
proof (cases "truthy (REFRESH_TOKEN d)")
  case True
  with assms have "refreshAccessToken e d w = (r, w')" by (simp add: tokenStep_def)
  from refreshAccessToken_trace[OF this] True show ?thesis by simp
next
  case False
  with assms have "getAccessToken e d w = (r, w')" by (simp add: tokenStep_def)
  from getAccessToken_trace[OF this] False show ?thesis by simp
qed

lemma tokenStep_trace:
  assumes "tokenStep e d w = (r, w')"
  shows "\<exists>evs. trace w' = trace w @ evs \<and> api_calls evs = []"
proof (cases "stale d (clock e (trace w))")
  case True
  from tokenStep_stale[OF True assms] obtain p evs where
    "trace w' = trace w @ TokenPost p # evs" "api_calls evs = []" by blast
  then have "trace w' = trace w @ (TokenPost p # evs) \<and> api_calls (TokenPost p # evs) = []" by simp
  then show ?thesis by blast
next
  case False
  with assms tokenStep_fresh[OF False] show ?thesis by simp
qed

lemma makeApiRequest_steps:
  "makeApiRequest e options w =
     (case readDbData e w of
        (Inl err, w1) \<Rightarrow> (Inl err, w1)
      | (Inr dbData, w1) \<Rightarrow>
          (case tokenStep e dbData w1 of
             (Inl err, w2) \<Rightarrow> (Inl err, w2)
           | (Inr _, w2) \<Rightarrow>
               (case readDbData e w2 of
                  (Inl err, w3) \<Rightarrow> (Inl err, w3)
                | (Inr latestDbData, w3) \<Rightarrow>
                    (let config = generateApiRequestConfig options (ACCESS_TOKEN latestDbData);
                         w4 = w3\<lparr>trace := trace w3 @ [ApiCall config]\<rparr>
                     in case crm_api e (trace w3) config of
                          Inl msg \<Rightarrow> (Inl (ApiCallFailure msg), w4)
                        | Inr body \<Rightarrow> (Inr body, w4)))))"
  unfolding makeApiRequest_def tokenStep_def by (rule refl)

lemma makeApiRequest_calls:
  assumes "makeApiRequest e options w = (r, w')"
  shows "\<exists>pre. api_calls pre = [] \<and>
          ((\<exists>err. r = Inl err \<and> trace w' = trace w @ pre) \<or>
           (\<exists>tok. trace w' = trace w @ pre @ [ApiCall (generateApiRequestConfig options tok)] \<and>
              r = (case crm_api e (trace w @ pre) (generateApiRequestConfig options tok) of
                     Inl msg \<Rightarrow> Inl (ApiCallFailure msg) | Inr body \<Rightarrow> Inr body)))"
proof -
  obtain r1 w1 where rd1: "readDbData e w = (r1, w1)" by fastforce
  from readDbData_run[OF rd1] have t1: "trace w1 = trace w @ [DbRead]" by simp
  show ?thesis
  proof (cases r1)
    case (Inl err)
    with assms rd1 have "r = Inl err" "w' = w1" by (simp_all add: makeApiRequest_steps)
    with t1 have "api_calls [DbRead] = [] \<and> r = Inl err \<and> trace w' = trace w @ [DbRead]" by simp
    then show ?thesis by blast
  next
    case (Inr d)
    obtain r2 w2 where ts: "tokenStep e d w1 = (r2, w2)" by fastforce
    from tokenStep_trace[OF ts] obtain mid where
      t2: "trace w2 = trace w1 @ mid" and mid: "api_calls mid = []" by blast
    show ?thesis
    proof (cases r2)
      case (Inl err)
      with assms rd1 Inr ts have "r = Inl err" "w' = w2" by (simp_all add: makeApiRequest_steps)
      with t1 t2 mid have "api_calls (DbRead # mid) = [] \<and> r = Inl err \<and> trace w' = trace w @ (DbRead # mid)"
        by simp
      then show ?thesis by blast
    next
      case u: (Inr u)
      obtain r3 w3 where rd2: "readDbData e w2 = (r3, w3)" by fastforce
      from readDbData_run[OF rd2] have t3: "trace w3 = trace w2 @ [DbRead]" by simp
      let ?pre = "DbRead # mid @ [DbRead]"
      have pre: "api_calls ?pre = []" "trace w3 = trace w @ ?pre" using mid t1 t2 t3 by simp_all
      show ?thesis
      proof (cases r3)
        case (Inl err)
        with assms rd1 Inr ts u rd2 have "r = Inl err" "w' = w3" by (simp_all add: makeApiRequest_steps)
        with pre show ?thesis by blast
      next
        case l: (Inr latest)
        let ?c = "generateApiRequestConfig options (ACCESS_TOKEN latest)"
        from assms rd1 Inr ts u rd2 l
        have "r = (case crm_api e (trace w3) ?c of Inl msg \<Rightarrow> Inl (ApiCallFailure msg) | Inr body \<Rightarrow> Inr body)"
          and "trace w' = trace w3 @ [ApiCall ?c]"
          by (auto simp add: makeApiRequest_steps Let_def split: sum.splits)
        with pre have "api_calls ?pre = [] \<and> trace w' = trace w @ ?pre @ [ApiCall ?c] \<and>
            r = (case crm_api e (trace w @ ?pre) ?c of Inl msg \<Rightarrow> Inl (ApiCallFailure msg) | Inr body \<Rightarrow> Inr body)"
          by simp
        then show ?thesis by blast
      qed
    qed
  qed
qed

section \<open>Token lifecycle: stale and live tokens\<close>

lemmas run_defs = makeApiRequest_def readDbData_def updateDbData_def getAccessToken_def
  refreshAccessToken_def generateApiRequestConfig_def stale_def truthy_def Let_def
  script_env_def start_def live_credentials_def token_answer_def no_options_def
  no_updates_def merge_updates_def merge_field_def redirectUri_def apiUrl_def
  findByLeadId_def findByPhone_def updateLeadTag_def crm_script_def crm_memory_def
  put_requests_def put_of_def since_def grant_type_of_def count_named_def
  updatedTags_def modifyLeadByLeadId_def modifyLeadsByPhoneAndTag_def retag_request_def
  lead_42_def three_leads_def

lemma makeApiRequest_shape:
  assumes "makeApiRequest e options w = (r, w')" and "read_fault e (trace w) = None"
  shows "\<exists>r2 w2 tail. tokenStep e (db w) (w\<lparr>trace := trace w @ [DbRead]\<rparr>) = (r2, w2) \<and>
           trace w' = trace w2 @ tail \<and> token_posts tail = [] \<and> length (api_calls tail) \<le> 1"
proof -
  let ?w1 = "w\<lparr>trace := trace w @ [DbRead]\<rparr>"
  have rd1: "readDbData e w = (Inr (db w), ?w1)"
    using assms(2) by (simp add: readDbData_def)
  obtain r2 w2 where ts: "tokenStep e (db w) ?w1 = (r2, w2)" by fastforce
  show ?thesis
  proof (cases r2)
    case (Inl err)
    with assms(1) rd1 ts have "w' = w2" by (simp add: makeApiRequest_steps)
    then have "trace w' = trace w2 @ [] \<and> token_posts [] = [] \<and> length (api_calls []) \<le> 1" by simp
    with ts show ?thesis by blast
  next
    case (Inr u)
    obtain r3 w3 where rd2: "readDbData e w2 = (r3, w3)" by fastforce
    from readDbData_run[OF rd2] have t3: "trace w3 = trace w2 @ [DbRead]" by simp
    show ?thesis
    proof (cases r3)
      case (Inl err)
      with assms(1) rd1 ts Inr rd2 have "w' = w3" by (simp add: makeApiRequest_steps)
      with t3 have "trace w' = trace w2 @ [DbRead] \<and> token_posts [DbRead] = [] \<and> length (api_calls [DbRead]) \<le> 1"
        by simp
      with ts show ?thesis by blast
    next
      case l: (Inr latest)
      let ?c = "generateApiRequestConfig options (ACCESS_TOKEN latest)"
      from assms(1) rd1 ts Inr rd2 l have "trace w' = trace w3 @ [ApiCall ?c]"
        by (auto simp add: makeApiRequest_steps Let_def split: sum.splits)
      with t3 have "trace w' = trace w2 @ [DbRead, ApiCall ?c] \<and> token_posts [DbRead, ApiCall ?c] = []
          \<and> length (api_calls [DbRead, ApiCall ?c]) \<le> 1" by simp
      with ts show ?thesis by blast
    qed
  qed
qed

text \<open>
  Claim C1, as the code has it.  When the first read of the store succeeds and the stored
  expiry time (0 when missing) is at or before the current time, a call of
  \<^verbatim>\<open>makeApiRequest\<close> issues, right after that read, exactly one token exchange, and only
  then possibly the CRM request.  The exchange is the refresh-token exchange when
  \<^verbatim>\<open>REFRESH_TOKEN\<close> is truthy (present and not the empty string), and the
  authorization-code exchange otherwise.
\<close>

theorem makeApiRequest_stale_one_exchange:
  assumes "read_fault e (trace w) = None"
    and "(case EXPIRY_TIME (db w) of None \<Rightarrow> 0 | Some t \<Rightarrow> t) \<le> clock e (trace w @ [DbRead])"
    and "makeApiRequest e options w = (r, w')"
  shows "\<exists>p rest. since w w' = DbRead # TokenPost p # rest \<and> token_posts rest = [] \<and>
           length (api_calls rest) \<le> 1 \<and>
           grant_type_of p = Some (Some (if truthy (REFRESH_TOKEN (db w)) then ''refresh_token''
                                         else ''authorization_code''))"
proof -
  let ?w1 = "w\<lparr>trace := trace w @ [DbRead]\<rparr>"
  from makeApiRequest_shape[OF assms(3) assms(1)] obtain r2 w2 tail where
    ts: "tokenStep e (db w) ?w1 = (r2, w2)" and tr: "trace w' = trace w2 @ tail"
    and tail: "token_posts tail = []" "length (api_calls tail) \<le> 1" by blast
  have "stale (db w) (clock e (trace ?w1))" using assms(2) by (simp add: stale_def)
  from tokenStep_stale[OF this ts] obtain p evs where
    ev: "trace w2 = trace ?w1 @ TokenPost p # evs" "token_posts evs = []" "api_calls evs = []"
    and gt: "grant_type_of p =
           Some (Some (if truthy (REFRESH_TOKEN (db w)) then ''refresh_token'' else ''authorization_code''))"
    by blast
  from ev tr have "trace w' = trace w @ (DbRead # TokenPost p # (evs @ tail))" by simp
  then have "since w w' = DbRead # TokenPost p # (evs @ tail)" by (rule since_append)
  moreover have "token_posts (evs @ tail) = []" "length (api_calls (evs @ tail)) \<le> 1"
    using ev tail by simp_all
  ultimately show ?thesis using gt by blast
qed

text \<open>An expired record holding a refresh token: one exchange, the refresh one.\<close>

theorem makeApiRequest_stale_one_exchange_witness:
  "read_fault (script_env 1000000 (Inr token_answer) (crm_script None []))
      (trace (start live_credentials)) = None \<and>
   EXPIRY_TIME (db (start live_credentials)) = Some 900000 \<and>
   clock (script_env 1000000 (Inr token_answer) (crm_script None []))
      (trace (start live_credentials) @ [DbRead]) = 1000001 \<and>
   map grant_type_of (token_posts (since (start live_credentials)
      (snd (makeApiRequest (script_env 1000000 (Inr token_answer) (crm_script None []))
              no_options (start live_credentials)))))
     = [Some (Some ''refresh_token'')]"
proof -
  let ?e = "script_env 1000000 (Inr token_answer) (crm_script None [])"
  let ?w = "start live_credentials"
  have h1: "read_fault ?e (trace ?w) = None" by (simp add: script_env_def)
  have h2: "(case EXPIRY_TIME (db ?w) of None \<Rightarrow> 0 | Some t \<Rightarrow> t) \<le> clock ?e (trace ?w @ [DbRead])"
    by (simp add: script_env_def start_def live_credentials_def)
  have h3: "makeApiRequest ?e no_options ?w =
      (fst (makeApiRequest ?e no_options ?w), snd (makeApiRequest ?e no_options ?w))"
    by simp
  from makeApiRequest_stale_one_exchange[OF h1 h2 h3] obtain p rest where
    "since ?w (snd (makeApiRequest ?e no_options ?w)) = DbRead # TokenPost p # rest"
    "token_posts rest = []"
    "grant_type_of p = Some (Some (if truthy (REFRESH_TOKEN (db ?w)) then ''refresh_token''
                                   else ''authorization_code''))"
    by blast
  then have "map grant_type_of (token_posts (since ?w (snd (makeApiRequest ?e no_options ?w))))
      = [Some (Some ''refresh_token'')]"
    by (simp add: truthy_def start_def live_credentials_def)
  then show ?thesis by (simp add: script_env_def start_def live_credentials_def)
qed

text \<open>
  Claim C1 as worded chooses the refresh exchange whenever \<^verbatim>\<open>REFRESH_TOKEN\<close> is present.
  The record below is expired and its \<^verbatim>\<open>REFRESH_TOKEN\<close> is present but empty; the one
  exchange issued is the authorization-code exchange, since \<^verbatim>\<open>!dbData?.REFRESH_TOKEN\<close>
  holds for the empty string.
\<close>

theorem makeApiRequest_empty_refresh_token_counterexample:
  "REFRESH_TOKEN (db (start (live_credentials\<lparr>REFRESH_TOKEN := Some ''''\<rparr>))) = Some '''' \<and>
   EXPIRY_TIME (db (start (live_credentials\<lparr>REFRESH_TOKEN := Some ''''\<rparr>))) = Some 900000 \<and>
   clock (script_env 1000000 (Inr token_answer) (crm_script None [])) [DbRead] = 1000001 \<and>
   map grant_type_of (token_posts (trace (snd
     (makeApiRequest (script_env 1000000 (Inr token_answer) (crm_script None []))
        no_options (start (live_credentials\<lparr>REFRESH_TOKEN := Some ''''\<rparr>))))))
   = [Some (Some ''authorization_code'')]"
  by (simp add: run_defs)

lemma callers_headerless:
  "(\<exists>options. headers options = None \<and> findByLeadId e leadId w = makeApiRequest e options w) \<and>
   (\<exists>options. headers options = None \<and> findByPhone e phonePrefix w = makeApiRequest e options w) \<and>
   (\<exists>options. headers options = None \<and> updateLeadTag e leadId tags w = makeApiRequest e options w)"
  unfolding findByLeadId_def findByPhone_def updateLeadTag_def
  by (intro conjI exI conjI[rotated], rule refl, simp add: no_options_def,
      rule refl, simp add: no_options_def, rule refl, simp add: no_options_def)

text \<open>
  Claim C7.  The request descriptors this program builds (in \<^verbatim>\<open>findByLeadId\<close>,
  \<^verbatim>\<open>findByPhone\<close> and \<^verbatim>\<open>updateLeadTag\<close>, the only callers) carry no headers.  For every
  such descriptor: when the first read of the store succeeds, the stored access token is
  not empty and the stored expiry time lies after the current time, \<^verbatim>\<open>makeApiRequest\<close>
  issues no token exchange, and the one request it sends (it sends none only if the
  second read of the store fails) is the descriptor with the base URL and the two
  headers \<^verbatim>\<open>Content-Type: application/json\<close> and
  \<^verbatim>\<open>Authorization: Zoho-oauthtoken <stored access token>\<close>.
\<close>

theorem makeApiRequest_live_token:
  assumes "read_fault e (trace w) = None"
    and "ACCESS_TOKEN (db w) = Some tok" and "tok \<noteq> []"
    and "EXPIRY_TIME (db w) = Some t" and "clock e (trace w @ [DbRead]) < t"
    and "headers options = None"
  shows "token_posts (since w (snd (makeApiRequest e options w))) = [] \<and>
         api_calls (since w (snd (makeApiRequest e options w))) =
           (if read_fault e (trace w @ [DbRead]) = None
            then [options\<lparr>baseURL := Some ''https://www.zohoapis.com/crm/v5'',
                    headers := Some [''Content-Type'' \<mapsto> ''application/json'',
                                     ''Authorization'' \<mapsto> ''Zoho-oauthtoken '' @ tok]\<rparr>]
            else [])"
  using assms
  by (auto simp: makeApiRequest_def readDbData_def stale_def truthy_def Let_def since_def
        generateApiRequestConfig_def apiUrl_def
      split: option.splits sum.splits)

text \<open>A live token and the descriptor of a lookup by id.\<close>

theorem makeApiRequest_live_token_witness:
  "read_fault (script_env 1000 (Inr token_answer) (crm_script None [])) (trace (start live_credentials)) = None \<and>
   ACCESS_TOKEN (db (start live_credentials)) = Some ''at-0'' \<and>
   EXPIRY_TIME (db (start live_credentials)) = Some 900000 \<and>
   clock (script_env 1000 (Inr token_answer) (crm_script None [])) (trace (start live_credentials) @ [DbRead]) = 1001 \<and>
   headers (no_options\<lparr>http_method := Some ''GET'', url := Some ''/Leads/42''\<rparr>) = None \<and>
   token_posts (since (start live_credentials)
      (snd (makeApiRequest (script_env 1000 (Inr token_answer) (crm_script None []))
              (no_options\<lparr>http_method := Some ''GET'', url := Some ''/Leads/42''\<rparr>)
              (start live_credentials)))) = [] \<and>
   api_calls (since (start live_credentials)
      (snd (makeApiRequest (script_env 1000 (Inr token_answer) (crm_script None []))
              (no_options\<lparr>http_method := Some ''GET'', url := Some ''/Leads/42''\<rparr>)
              (start live_credentials))))
     = [\<lparr>http_method = Some ''GET'', url = Some ''/Leads/42'',
         baseURL = Some ''https://www.zohoapis.com/crm/v5'', params = None, req_data = None,
         headers = Some [''Content-Type'' \<mapsto> ''application/json'',
                         ''Authorization'' \<mapsto> ''Zoho-oauthtoken at-0'']\<rparr>]"
proof -
  let ?e = "script_env 1000 (Inr token_answer) (crm_script None [])"
  let ?w = "start live_credentials"
  let ?o = "no_options\<lparr>http_method := Some ''GET'', url := Some ''/Leads/42''\<rparr>"
  have h1: "read_fault ?e (trace ?w) = None" by (simp add: script_env_def)
  have h2: "ACCESS_TOKEN (db ?w) = Some ''at-0''" by (simp add: start_def live_credentials_def)
  have h3: "''at-0'' \<noteq> []" by simp
  have h4: "EXPIRY_TIME (db ?w) = Some 900000" by (simp add: start_def live_credentials_def)
  have h5: "clock ?e (trace ?w @ [DbRead]) < 900000" by (simp add: script_env_def start_def)
  have h6: "headers ?o = None" by (simp add: no_options_def)
  have h7: "read_fault ?e (trace ?w @ [DbRead]) = None" by (simp add: script_env_def)
  from makeApiRequest_live_token[OF h1 h2 h3 h4 h5 h6] h7
  have "token_posts (since ?w (snd (makeApiRequest ?e ?o ?w))) = [] \<and>
        api_calls (since ?w (snd (makeApiRequest ?e ?o ?w))) =
          [?o\<lparr>baseURL := Some ''https://www.zohoapis.com/crm/v5'',
              headers := Some [''Content-Type'' \<mapsto> ''application/json'',
                               ''Authorization'' \<mapsto> ''Zoho-oauthtoken at-0'']\<rparr>]" by simp
  moreover have "clock ?e (trace ?w @ [DbRead]) = 1001" by (simp add: script_env_def start_def)
  ultimately show ?thesis using h1 h2 h4 h6 by (simp add: no_options_def)
qed

section \<open>The two exchanges\<close>

text \<open>
  Claim C4.  The one form payload that \<^verbatim>\<open>getAccessToken\<close> posts to the token endpoint
  carries the record's \<^verbatim>\<open>CLIENT_ID\<close> under \<^verbatim>\<open>client_id\<close> and under \<^verbatim>\<open>client_secret\<close>;
  the record's \<^verbatim>\<open>CLIENT_SECRET\<close> has no influence on what is posted.
\<close>

theorem getAccessToken_sends_client_id_twice:
  "token_posts (since w (snd (getAccessToken e d w))) =
     [[(''client_id'', CLIENT_ID d), (''client_secret'', CLIENT_ID d),
       (''redirect_uri'', Some ''https://www.zoho.com''), (''code'', AUTHORIZATION_CODE d),
       (''grant_type'', Some ''authorization_code'')]] \<and>
   token_posts (since w (snd (getAccessToken e (d\<lparr>CLIENT_SECRET := s\<rparr>) w))) =
     token_posts (since w (snd (getAccessToken e d w)))"
  by (simp add: getAccessToken_def updateDbData_def Let_def since_def redirectUri_def
        split: sum.splits option.splits)

text \<open>A record whose secret differs from its client id: the secret is not in the payload.\<close>

theorem getAccessToken_sends_client_id_twice_witness:
  "CLIENT_ID live_credentials = Some ''cid'' \<and> CLIENT_SECRET live_credentials = Some ''secret'' \<and>
   token_posts (since (start live_credentials)
     (snd (getAccessToken (script_env 1000 (Inr token_answer) (crm_script None []))
        live_credentials (start live_credentials)))) =
     [[(''client_id'', Some ''cid''), (''client_secret'', Some ''cid''),
       (''redirect_uri'', Some ''https://www.zoho.com''), (''code'', Some ''code-1''),
       (''grant_type'', Some ''authorization_code'')]]"
  using getAccessToken_sends_client_id_twice
    [of "start live_credentials" "script_env 1000 (Inr token_answer) (crm_script None [])"
        live_credentials "Some ''secret''"]
  by (simp add: live_credentials_def)

lemma merge_refresh:
  "merge_updates d (no_updates\<lparr>ACCESS_TOKEN := Some a, EXPIRY_TIME := Some t\<rparr>) =
     d\<lparr>ACCESS_TOKEN := Some a, EXPIRY_TIME := Some t\<rparr>"
  by (cases d) (simp add: merge_updates_def no_updates_def merge_field_def)

lemma merge_authorization:
  "merge_updates d (no_updates\<lparr>ACCESS_TOKEN := Some a, REFRESH_TOKEN := Some rt, EXPIRY_TIME := Some t\<rparr>) =
     d\<lparr>ACCESS_TOKEN := Some a, REFRESH_TOKEN := Some rt, EXPIRY_TIME := Some t\<rparr>"
  by (cases d) (simp add: merge_updates_def no_updates_def merge_field_def)

text \<open>
  Claim C8.  A refresh-token exchange that succeeds issues one store update naming
  \<^verbatim>\<open>ACCESS_TOKEN\<close> and \<^verbatim>\<open>EXPIRY_TIME\<close> only, the latter being the time read after the
  answer plus \<^verbatim>\<open>expires_in * 1000\<close>, and the store afterwards differs from the store
  before in these two fields only.  An authorization-code exchange that succeeds does
  the same with \<^verbatim>\<open>ACCESS_TOKEN\<close>, \<^verbatim>\<open>REFRESH_TOKEN\<close> and \<^verbatim>\<open>EXPIRY_TIME\<close>.
\<close>

theorem exchange_store_frame:
  "(refreshAccessToken e d w = (Inr u, w') \<longrightarrow>
      (\<exists>p resp now. token_endpoint e (trace w) p = Inr resp \<and>
         grant_type_of p = Some (Some ''refresh_token'') \<and>
         now = clock e (trace w @ [TokenPost p]) \<and>
         since w w' = [TokenPost p,
            DbUpdate (no_updates\<lparr>ACCESS_TOKEN := Some (access_token resp),
                        EXPIRY_TIME := Some (now + expires_in resp * 1000)\<rparr>)] \<and>
         db w' = (db w)\<lparr>ACCESS_TOKEN := Some (access_token resp),
                    EXPIRY_TIME := Some (now + expires_in resp * 1000)\<rparr>)) \<and>
   (getAccessToken e d w = (Inr u, w') \<longrightarrow>
      (\<exists>p resp now. token_endpoint e (trace w) p = Inr resp \<and>
         grant_type_of p = Some (Some ''authorization_code'') \<and>
         now = clock e (trace w @ [TokenPost p]) \<and>
         since w w' = [TokenPost p,
            DbUpdate (no_updates\<lparr>ACCESS_TOKEN := Some (access_token resp),
                        REFRESH_TOKEN := Some (refresh_token resp),
                        EXPIRY_TIME := Some (now + expires_in resp * 1000)\<rparr>)] \<and>
         db w' = (db w)\<lparr>ACCESS_TOKEN := Some (access_token resp),
                    REFRESH_TOKEN := Some (refresh_token resp),
                    EXPIRY_TIME := Some (now + expires_in resp * 1000)\<rparr>))"
proof (intro conjI impI)
  assume run: "refreshAccessToken e d w = (Inr u, w')"
  let ?p = "[(''client_id'', CLIENT_ID d), (''client_secret'', CLIENT_SECRET d),
             (''refresh_token'', REFRESH_TOKEN d), (''grant_type'', Some ''refresh_token'')]"
  from run obtain resp where ans: "token_endpoint e (trace w) ?p = Inr resp"
    by (auto simp: refreshAccessToken_def Let_def split: sum.splits)
  let ?now = "clock e (trace w @ [TokenPost ?p])"
  let ?u = "no_updates\<lparr>ACCESS_TOKEN := Some (access_token resp),
                        EXPIRY_TIME := Some (?now + expires_in resp * 1000)\<rparr>"
  from run ans have w': "trace w' = trace w @ [TokenPost ?p, DbUpdate ?u]"
     "db w' = merge_updates (db w) ?u"
    by (auto simp: refreshAccessToken_def updateDbData_def Let_def split: option.splits)
  have "grant_type_of ?p = Some (Some ''refresh_token'')" by (simp add: grant_type_of_def)
  moreover have "since w w' = [TokenPost ?p, DbUpdate ?u]" using w'(1) by (rule since_append)
  moreover have "db w' = (db w)\<lparr>ACCESS_TOKEN := Some (access_token resp),
                    EXPIRY_TIME := Some (?now + expires_in resp * 1000)\<rparr>"
    using w'(2) by (simp only: merge_refresh)
  ultimately show "\<exists>p resp now. token_endpoint e (trace w) p = Inr resp \<and>
         grant_type_of p = Some (Some ''refresh_token'') \<and>
         now = clock e (trace w @ [TokenPost p]) \<and>
         since w w' = [TokenPost p,
            DbUpdate (no_updates\<lparr>ACCESS_TOKEN := Some (access_token resp),
                        EXPIRY_TIME := Some (now + expires_in resp * 1000)\<rparr>)] \<and>
         db w' = (db w)\<lparr>ACCESS_TOKEN := Some (access_token resp),
                    EXPIRY_TIME := Some (now + expires_in resp * 1000)\<rparr>"
    using ans by blast
next
  assume run: "getAccessToken e d w = (Inr u, w')"
  let ?p = "[(''client_id'', CLIENT_ID d), (''client_secret'', CLIENT_ID d),
             (''redirect_uri'', Some redirectUri), (''code'', AUTHORIZATION_CODE d),
             (''grant_type'', Some ''authorization_code'')]"
  from run obtain resp where ans: "token_endpoint e (trace w) ?p = Inr resp"
    by (auto simp: getAccessToken_def Let_def split: sum.splits)
  let ?now = "clock e (trace w @ [TokenPost ?p])"
  let ?u = "no_updates\<lparr>ACCESS_TOKEN := Some (access_token resp),
                        REFRESH_TOKEN := Some (refresh_token resp),
                        EXPIRY_TIME := Some (?now + expires_in resp * 1000)\<rparr>"
  from run ans have w': "trace w' = trace w @ [TokenPost ?p, DbUpdate ?u]"
     "db w' = merge_updates (db w) ?u"
    by (auto simp: getAccessToken_def updateDbData_def Let_def split: option.splits)
  have "grant_type_of ?p = Some (Some ''authorization_code'')" by (simp add: grant_type_of_def)
  moreover have "since w w' = [TokenPost ?p, DbUpdate ?u]" using w'(1) by (rule since_append)
  moreover have "db w' = (db w)\<lparr>ACCESS_TOKEN := Some (access_token resp),
                    REFRESH_TOKEN := Some (refresh_token resp),
                    EXPIRY_TIME := Some (?now + expires_in resp * 1000)\<rparr>"
    using w'(2) by (simp only: merge_authorization)
  ultimately show "\<exists>p resp now. token_endpoint e (trace w) p = Inr resp \<and>
         grant_type_of p = Some (Some ''authorization_code'') \<and>
         now = clock e (trace w @ [TokenPost p]) \<and>
         since w w' = [TokenPost p,
            DbUpdate (no_updates\<lparr>ACCESS_TOKEN := Some (access_token resp),
                        REFRESH_TOKEN := Some (refresh_token resp),
                        EXPIRY_TIME := Some (now + expires_in resp * 1000)\<rparr>)] \<and>
         db w' = (db w)\<lparr>ACCESS_TOKEN := Some (access_token resp),
                    REFRESH_TOKEN := Some (refresh_token resp),
                    EXPIRY_TIME := Some (now + expires_in resp * 1000)\<rparr>"
    using ans by blast
qed

text \<open>Both exchanges on the same record, answered at time 1001 with \<open>expires_in = 3600\<close>.\<close>

theorem exchange_store_frame_witness:
  "fst (refreshAccessToken (script_env 1000 (Inr token_answer) (crm_script None []))
          live_credentials (start live_credentials)) = Inr () \<and>
   db (snd (refreshAccessToken (script_env 1000 (Inr token_answer) (crm_script None []))
          live_credentials (start live_credentials)))
     = live_credentials\<lparr>ACCESS_TOKEN := Some ''at-1'', EXPIRY_TIME := Some 3601001\<rparr> \<and>
   REFRESH_TOKEN (db (snd (refreshAccessToken (script_env 1000 (Inr token_answer) (crm_script None []))
          live_credentials (start live_credentials)))) = Some ''rt-0'' \<and>
   fst (getAccessToken (script_env 1000 (Inr token_answer) (crm_script None []))
          live_credentials (start live_credentials)) = Inr () \<and>
   db (snd (getAccessToken (script_env 1000 (Inr token_answer) (crm_script None []))
          live_credentials (start live_credentials)))
     = live_credentials\<lparr>ACCESS_TOKEN := Some ''at-1'', REFRESH_TOKEN := Some ''rt-1'',
          EXPIRY_TIME := Some 3601001\<rparr>"
proof -
  let ?e = "script_env 1000 (Inr token_answer) (crm_script None [])"
  let ?w = "start live_credentials"
  have ok1: "fst (refreshAccessToken ?e live_credentials ?w) = Inr ()"
    by (simp add: refreshAccessToken_def updateDbData_def script_env_def Let_def)
  then have run1: "refreshAccessToken ?e live_credentials ?w =
      (Inr (), snd (refreshAccessToken ?e live_credentials ?w))"
    by (metis prod.collapse)
  have ok2: "fst (getAccessToken ?e live_credentials ?w) = Inr ()"
    by (simp add: getAccessToken_def updateDbData_def script_env_def Let_def)
  then have run2: "getAccessToken ?e live_credentials ?w =
      (Inr (), snd (getAccessToken ?e live_credentials ?w))"
    by (metis prod.collapse)
  note frame = exchange_store_frame[of ?e live_credentials ?w "()"]
  from frame[of "snd (refreshAccessToken ?e live_credentials ?w)"] run1
  obtain p resp now where a:
    "token_endpoint ?e (trace ?w) p = Inr resp" "now = clock ?e (trace ?w @ [TokenPost p])"
    "db (snd (refreshAccessToken ?e live_credentials ?w)) =
       (db ?w)\<lparr>ACCESS_TOKEN := Some (access_token resp),
                 EXPIRY_TIME := Some (now + expires_in resp * 1000)\<rparr>"
    by blast
  from a(1) have "resp = token_answer" by (simp add: script_env_def)
  moreover from a(2) have "now = 1001" by (simp add: script_env_def start_def)
  ultimately have d1: "db (snd (refreshAccessToken ?e live_credentials ?w)) =
      live_credentials\<lparr>ACCESS_TOKEN := Some ''at-1'', EXPIRY_TIME := Some 3601001\<rparr>"
    using a(3) by (simp add: token_answer_def start_def)
  from frame[of "snd (getAccessToken ?e live_credentials ?w)"] run2
  obtain p' resp' now' where b:
    "token_endpoint ?e (trace ?w) p' = Inr resp'" "now' = clock ?e (trace ?w @ [TokenPost p'])"
    "db (snd (getAccessToken ?e live_credentials ?w)) =
       (db ?w)\<lparr>ACCESS_TOKEN := Some (access_token resp'),
                 REFRESH_TOKEN := Some (refresh_token resp'),
                 EXPIRY_TIME := Some (now' + expires_in resp' * 1000)\<rparr>"
    by blast
  from b(1) have "resp' = token_answer" by (simp add: script_env_def)
  moreover from b(2) have "now' = 1001" by (simp add: script_env_def start_def)
  ultimately have d2: "db (snd (getAccessToken ?e live_credentials ?w)) =
      live_credentials\<lparr>ACCESS_TOKEN := Some ''at-1'', REFRESH_TOKEN := Some ''rt-1'',
          EXPIRY_TIME := Some 3601001\<rparr>"
    using b(3) by (simp add: token_answer_def start_def)
  have "REFRESH_TOKEN (db (snd (refreshAccessToken ?e live_credentials ?w))) = Some ''rt-0''"
    unfolding d1 by (simp add: live_credentials_def)
  with ok1 ok2 d1 d2 show ?thesis by simp
qed

section \<open>Requests issued by the lead operations and the workflows\<close>

lemma put_requests_generated:
  "put_requests [ApiCall (generateApiRequestConfig options tok)] =
     (if http_method options = Some ''PUT'' then [(url options, req_data options)] else [])"
  by (simp add: put_requests_def generateApiRequestConfig_def)

lemma makeApiRequest_puts:
  assumes "makeApiRequest e options w = (r, w')"
  shows "\<exists>evs. trace w' = trace w @ evs \<and>
           (put_requests evs = [] \<and> (http_method options = Some ''PUT'' \<longrightarrow> (\<exists>err. r = Inl err))
            \<or> put_requests evs = [(url options, req_data options)] \<and> http_method options = Some ''PUT'')"
proof -
  from makeApiRequest_calls[OF assms] obtain pre where pre: "api_calls pre = []"
    and alt: "(\<exists>err. r = Inl err \<and> trace w' = trace w @ pre) \<or>
           (\<exists>tok. trace w' = trace w @ pre @ [ApiCall (generateApiRequestConfig options tok)])"
    by blast
  from pre have none: "put_requests pre = []" by (rule put_requests_no_calls)
  from alt show ?thesis
  proof
    assume "\<exists>err. r = Inl err \<and> trace w' = trace w @ pre"
    with none show ?thesis by blast
  next
    assume "\<exists>tok. trace w' = trace w @ pre @ [ApiCall (generateApiRequestConfig options tok)]"
    then obtain tok where
      tr: "trace w' = trace w @ (pre @ [ApiCall (generateApiRequestConfig options tok)])" by auto
    have "put_requests (pre @ [ApiCall (generateApiRequestConfig options tok)]) =
        (if http_method options = Some ''PUT'' then [(url options, req_data options)] else [])"
      using none by (simp add: put_requests_generated)
    with tr show ?thesis by (cases "http_method options = Some ''PUT''") auto
  qed
qed

lemma updateLeadTag_puts:
  assumes "updateLeadTag e i ts w = (r, w')"
  shows "\<exists>evs. trace w' = trace w @ evs \<and>
           (put_requests evs = [put_of i ts] \<or> put_requests evs = [] \<and> (\<exists>err. r = Inl err))"
  using makeApiRequest_puts[OF assms[unfolded updateLeadTag_def]]
  by (auto simp: put_of_def no_options_def)

lemma findByLeadId_puts:
  assumes "findByLeadId e i w = (r, w')"
  shows "\<exists>evs. trace w' = trace w @ evs \<and> put_requests evs = []"
  using makeApiRequest_puts[OF assms[unfolded findByLeadId_def]]
  by (auto simp: no_options_def)

lemma findByPhone_puts:
  assumes "findByPhone e ph w = (r, w')"
  shows "\<exists>evs. trace w' = trace w @ evs \<and> put_requests evs = []"
  using makeApiRequest_puts[OF assms[unfolded findByPhone_def]]
  by (auto simp: no_options_def)

lemma modifyLeadByLeadId_found:
  assumes "findByLeadId e (req_id r) w = (Inr resp, w1)" and "data resp = Some (l # rest)"
  shows "modifyLeadByLeadId e r w =
     (case updateLeadTag e (lead_id l) (updatedTags (tag r) (tagFilter r) (Tag l)) w1 of
        (Inl err, w2) \<Rightarrow> (Inl err, w2)
      | (Inr _, w2) \<Rightarrow> (Inr 200, w2))"
  using assms by (simp add: modifyLeadByLeadId_def)

lemma modifyLeadByLeadId_puts:
  assumes "findByLeadId e (req_id r) w = (Inr resp, w1)" and "data resp = Some (l # rest)"
    and "modifyLeadByLeadId e r w = (res, w')"
  shows "(res = Inr 200 \<and>
            put_requests (since w1 w') = [put_of (lead_id l) (updatedTags (tag r) (tagFilter r) (Tag l))])
         \<or> ((\<exists>err. res = Inl err) \<and>
            (put_requests (since w1 w') = [] \<or>
             put_requests (since w1 w') = [put_of (lead_id l) (updatedTags (tag r) (tagFilter r) (Tag l))]))"
proof -
  let ?ts = "updatedTags (tag r) (tagFilter r) (Tag l)"
  obtain r2 w2 where up: "updateLeadTag e (lead_id l) ?ts w1 = (r2, w2)" by fastforce
  from updateLeadTag_puts[OF up] obtain evs where
    tr: "trace w2 = trace w1 @ evs"
    and alt: "put_requests evs = [put_of (lead_id l) ?ts] \<or> put_requests evs = [] \<and> (\<exists>err. r2 = Inl err)"
    by blast
  from tr have s: "since w1 w2 = evs" by (rule since_append)
  from modifyLeadByLeadId_found[OF assms(1,2)] up assms(3)
  have res: "w' = w2" "res = (case r2 of Inl err \<Rightarrow> Inl err | Inr _ \<Rightarrow> Inr 200)"
    by (auto split: sum.splits)
  show ?thesis
  proof (cases r2)
    case (Inl err)
    with res alt s show ?thesis by auto
  next
    case (Inr b)
    with res alt s show ?thesis by auto
  qed
qed

lemma updates_succeed_puts:
  "updates_succeed e tg flt ls w w' \<Longrightarrow>
     \<exists>evs. trace w' = trace w @ evs \<and>
       put_requests evs = map (\<lambda>l. put_of (lead_id l) (updatedTags tg flt (Tag l))) ls"
proof (induction ls arbitrary: w)
  case Nil
  then show ?case by (simp add: put_requests_def)
next
  case (Cons l ls)
  obtain r1 w1 where up: "updateLeadTag e (lead_id l) (updatedTags tg flt (Tag l)) w = (r1, w1)"
    by fastforce
  with Cons.prems obtain b where ok: "r1 = Inr b" and rest: "updates_succeed e tg flt ls w1 w'"
    by (cases r1) auto
  from updateLeadTag_puts[OF up] ok obtain evs1 where
    e1: "trace w1 = trace w @ evs1" "put_requests evs1 = [put_of (lead_id l) (updatedTags tg flt (Tag l))]"
    by auto
  from Cons.IH[OF rest] obtain evs2 where
    e2: "trace w' = trace w1 @ evs2"
        "put_requests evs2 = map (\<lambda>l. put_of (lead_id l) (updatedTags tg flt (Tag l))) ls"
    by blast
  from e1 e2 have "trace w' = trace w @ (evs1 @ evs2) \<and>
     put_requests (evs1 @ evs2) = map (\<lambda>l. put_of (lead_id l) (updatedTags tg flt (Tag l))) (l # ls)"
    by simp
  then show ?case by blast
qed

lemma forEachLead_run:
  "forEachLead e tg flt leads w = (res, w') \<Longrightarrow>
     \<exists>k wk. k \<le> length leads \<and> updates_succeed e tg flt (take k leads) w wk \<and>
       (if k = length leads then res = Inr () \<and> w' = wk
        else \<exists>err. res = Inl err \<and>
               updateLeadTag e (lead_id (leads ! k)) (updatedTags tg flt (Tag (leads ! k))) wk
                 = (Inl err, w'))"
proof (induction leads arbitrary: w)
  case Nil
  then have "0 \<le> length ([]::lead list) \<and> updates_succeed e tg flt (take 0 []) w w \<and>
      res = Inr () \<and> w' = w" by simp
  then show ?case by (intro exI[of _ 0] exI[of _ w]) simp
next
  case (Cons l ls)
  obtain r1 w1 where up: "updateLeadTag e (lead_id l) (updatedTags tg flt (Tag l)) w = (r1, w1)"
    by fastforce
  show ?case
  proof (cases r1)
    case (Inl err)
    with Cons.prems up have "res = Inl err" "w' = w1" by simp_all
    with up Inl show ?thesis by (intro exI[of _ 0] exI[of _ w]) simp
  next
    case (Inr b)
    with Cons.prems up have "forEachLead e tg flt ls w1 = (res, w')" by simp
    from Cons.IH[OF this] obtain k wk where k: "k \<le> length ls"
      "updates_succeed e tg flt (take k ls) w1 wk"
      "if k = length ls then res = Inr () \<and> w' = wk
        else \<exists>err. res = Inl err \<and>
               updateLeadTag e (lead_id (ls ! k)) (updatedTags tg flt (Tag (ls ! k))) wk
                 = (Inl err, w')" by blast
    from k(2) up Inr have "updates_succeed e tg flt (take (Suc k) (l # ls)) w wk" by simp
    with k(1,3) show ?thesis by (intro exI[of _ "Suc k"] exI[of _ wk]) simp
  qed
qed

lemma tokenStep_not_api_failure:
  "tokenStep e d w = (Inl err, w') \<Longrightarrow> err \<noteq> ApiCallFailure m"
  by (auto simp: tokenStep_def getAccessToken_def refreshAccessToken_def updateDbData_def Let_def
      split: if_splits sum.splits option.splits)

lemma makeApiRequest_outcome:
  assumes "makeApiRequest e options w = (r, w')"
  shows "\<exists>pre. api_calls pre = [] \<and>
          ((\<exists>err. r = Inl err \<and> (\<forall>m. err \<noteq> ApiCallFailure m) \<and> trace w' = trace w @ pre) \<or>
           (\<exists>tok. trace w' = trace w @ pre @ [ApiCall (generateApiRequestConfig options tok)] \<and>
              ((\<exists>b. r = Inr b) \<or> (\<exists>m. r = Inl (ApiCallFailure m)))))"
proof -
  obtain r1 w1 where rd1: "readDbData e w = (r1, w1)" by fastforce
  from readDbData_run[OF rd1] have t1: "trace w1 = trace w @ [DbRead]"
    and v1: "r1 = (case read_fault e (trace w) of Some m \<Rightarrow> Inl (StorageFailure m) | None \<Rightarrow> Inr (db w))"
    by simp_all
  show ?thesis
  proof (cases r1)
    case (Inl err)
    with v1 have ne: "\<forall>m. err \<noteq> ApiCallFailure m" by (auto split: option.splits)
    from Inl assms rd1 have "r = Inl err" "w' = w1" by (simp_all add: makeApiRequest_steps)
    with t1 ne have "api_calls [DbRead] = [] \<and> r = Inl err \<and> (\<forall>m. err \<noteq> ApiCallFailure m) \<and>
        trace w' = trace w @ [DbRead]" by simp
    then show ?thesis by blast
  next
    case (Inr d)
    obtain r2 w2 where ts: "tokenStep e d w1 = (r2, w2)" by fastforce
    from tokenStep_trace[OF ts] obtain mid where
      t2: "trace w2 = trace w1 @ mid" and mid: "api_calls mid = []" by blast
    show ?thesis
    proof (cases r2)
      case (Inl err)
      with ts have ne: "\<forall>m. err \<noteq> ApiCallFailure m" by (auto dest: tokenStep_not_api_failure)
      from Inl assms rd1 Inr ts have "r = Inl err" "w' = w2" by (simp_all add: makeApiRequest_steps)
      with t1 t2 mid ne have "api_calls (DbRead # mid) = [] \<and> r = Inl err \<and>
          (\<forall>m. err \<noteq> ApiCallFailure m) \<and> trace w' = trace w @ (DbRead # mid)"
        by simp
      then show ?thesis by blast
    next
      case u: (Inr u)
      obtain r3 w3 where rd2: "readDbData e w2 = (r3, w3)" by fastforce
      from readDbData_run[OF rd2] have t3: "trace w3 = trace w2 @ [DbRead]"
        and v3: "r3 = (case read_fault e (trace w2) of Some m \<Rightarrow> Inl (StorageFailure m)
                       | None \<Rightarrow> Inr (db w2))"
        by simp_all
      let ?pre = "DbRead # mid @ [DbRead]"
      have pre: "api_calls ?pre = []" "trace w3 = trace w @ ?pre" using mid t1 t2 t3 by simp_all
      show ?thesis
      proof (cases r3)
        case (Inl err)
        with v3 have ne: "\<forall>m. err \<noteq> ApiCallFailure m" by (auto split: option.splits)
        from Inl assms rd1 Inr ts u rd2 have "r = Inl err" "w' = w3"
          by (simp_all add: makeApiRequest_steps)
        with pre ne show ?thesis by blast
      next
        case l: (Inr latest)
        let ?c = "generateApiRequestConfig options (ACCESS_TOKEN latest)"
        from assms rd1 Inr ts u rd2 l
        have "(\<exists>b. r = Inr b) \<or> (\<exists>m. r = Inl (ApiCallFailure m))"
          and "trace w' = trace w3 @ [ApiCall ?c]"
          by (auto simp add: makeApiRequest_steps Let_def split: sum.splits)
        with pre have "api_calls ?pre = [] \<and> trace w' = trace w @ ?pre @ [ApiCall ?c] \<and>
            ((\<exists>b. r = Inr b) \<or> (\<exists>m. r = Inl (ApiCallFailure m)))"
          by simp
        then show ?thesis by blast
      qed
    qed
  qed
qed

lemma updateLeadTag_puts_exact:
  assumes "updateLeadTag e i ts w = (r, w')"
  shows "put_requests (since w w') =
           (if (\<exists>b. r = Inr b) \<or> (\<exists>m. r = Inl (ApiCallFailure m)) then [put_of i ts] else [])"
proof -
  let ?o = "no_options\<lparr>http_method := Some ''PUT'', url := Some (''/Leads/'' @ i),
              req_data := Some [\<lparr>upd_Tag = ts\<rparr>]\<rparr>"
  from assms have run: "makeApiRequest e ?o w = (r, w')" by (simp add: updateLeadTag_def)
  from makeApiRequest_outcome[OF run] obtain pre where pre: "api_calls pre = []"
    and alt: "(\<exists>err. r = Inl err \<and> (\<forall>m. err \<noteq> ApiCallFailure m) \<and> trace w' = trace w @ pre) \<or>
           (\<exists>tok. trace w' = trace w @ pre @ [ApiCall (generateApiRequestConfig ?o tok)] \<and>
              ((\<exists>b. r = Inr b) \<or> (\<exists>m. r = Inl (ApiCallFailure m))))" by blast
  from pre have none: "put_requests pre = []" by (rule put_requests_no_calls)
  from alt show ?thesis
  proof
    assume "\<exists>err. r = Inl err \<and> (\<forall>m. err \<noteq> ApiCallFailure m) \<and> trace w' = trace w @ pre"
    then obtain err where "r = Inl err" "\<forall>m. err \<noteq> ApiCallFailure m" "trace w' = trace w @ pre"
      by blast
    with none show ?thesis by auto
  next
    assume "\<exists>tok. trace w' = trace w @ pre @ [ApiCall (generateApiRequestConfig ?o tok)] \<and>
              ((\<exists>b. r = Inr b) \<or> (\<exists>m. r = Inl (ApiCallFailure m)))"
    then obtain tok where
      tr: "trace w' = trace w @ (pre @ [ApiCall (generateApiRequestConfig ?o tok)])"
      and ok: "(\<exists>b. r = Inr b) \<or> (\<exists>m. r = Inl (ApiCallFailure m))" by auto
    have "put_requests (pre @ [ApiCall (generateApiRequestConfig ?o tok)]) = [put_of i ts]"
      using none by (simp add: put_requests_generated put_of_def no_options_def)
    with tr ok show ?thesis by (simp only: since_append if_True)
  qed
qed

lemma tokenStep_cooperative:
  assumes "cooperative e"
  shows "\<exists>w'. tokenStep e d w = (Inr (), w')"
proof -
  from assms have up: "\<And>h u. update_fault e h u = None"
    and tk: "\<And>h p. \<exists>a. token_endpoint e h p = Inr a"
    by (simp_all add: cooperative_def)
  have g: "\<exists>w'. getAccessToken e d w = (Inr (), w')"
  proof -
    let ?p = "[(''client_id'', CLIENT_ID d), (''client_secret'', CLIENT_ID d),
             (''redirect_uri'', Some redirectUri), (''code'', AUTHORIZATION_CODE d),
             (''grant_type'', Some ''authorization_code'')]"
    from tk obtain a where "token_endpoint e (trace w) ?p = Inr a" by blast
    then show ?thesis by (simp add: getAccessToken_def updateDbData_def Let_def up)
  qed
  have f: "\<exists>w'. refreshAccessToken e d w = (Inr (), w')"
  proof -
    let ?p = "[(''client_id'', CLIENT_ID d), (''client_secret'', CLIENT_SECRET d),
             (''refresh_token'', REFRESH_TOKEN d), (''grant_type'', Some ''refresh_token'')]"
    from tk obtain a where "token_endpoint e (trace w) ?p = Inr a" by blast
    then show ?thesis by (simp add: refreshAccessToken_def updateDbData_def Let_def up)
  qed
  from g f show ?thesis by (simp add: tokenStep_def)
qed

lemma makeApiRequest_cooperative:
  assumes "cooperative e"
  shows "\<exists>b. fst (makeApiRequest e options w) = Inr b"
proof -
  from assms have rd: "\<And>h. read_fault e h = None"
    and crm: "\<And>h c. \<exists>b. crm_api e h c = Inr b"
    by (simp_all add: cooperative_def)
  let ?w1 = "w\<lparr>trace := trace w @ [DbRead]\<rparr>"
  from tokenStep_cooperative[OF assms] obtain w2 where
    ts: "tokenStep e (db w) ?w1 = (Inr (), w2)" by blast
  let ?c = "generateApiRequestConfig options (ACCESS_TOKEN (db w2))"
  from crm obtain b where "crm_api e (trace w2 @ [DbRead]) ?c = Inr b" by blast
  with ts have "fst (makeApiRequest e options w) = Inr b"
    by (simp add: makeApiRequest_steps readDbData_def rd Let_def)
  then show ?thesis ..
qed

lemma updateLeadTag_cooperative:
  "cooperative e \<Longrightarrow> \<exists>b. fst (updateLeadTag e i ts w) = Inr b"
  unfolding updateLeadTag_def by (rule makeApiRequest_cooperative)

lemma forEachLead_cooperative:
  "cooperative e \<Longrightarrow> fst (forEachLead e tg flt leads w) = Inr ()"
proof (induction leads arbitrary: w)
  case Nil
  then show ?case by simp
next
  case (Cons l ls)
  from updateLeadTag_cooperative[OF Cons.prems] obtain b where
    "fst (updateLeadTag e (lead_id l) (updatedTags tg flt (Tag l)) w) = Inr b" by blast
  then obtain w1 where "updateLeadTag e (lead_id l) (updatedTags tg flt (Tag l)) w = (Inr b, w1)"
    by (metis prod.collapse)
  with Cons.IH[OF Cons.prems] show ?case by simp
qed

lemma cooperative_script:
  "cooperative (script_env t0 (Inr a) (crm_script found []))"
  by (simp add: cooperative_def script_env_def crm_script_def)

section \<open>Not found\<close>

text \<open>
  Claim C6.  When \<^verbatim>\<open>findByLeadId\<close> answers with a \<^verbatim>\<open>data\<close> member that is absent or an
  empty array, the by-id workflow returns 400 as a value (it does not raise), in the
  very world the lookup left: nothing is issued after the lookup, and no update request
  was sent at all.
\<close>

theorem modifyLeadByLeadId_not_found:
  assumes "findByLeadId e (req_id r) w = (Inr resp, w1)"
    and "data resp = None \<or> data resp = Some []"
  shows "modifyLeadByLeadId e r w = (Inr 400, w1) \<and> put_requests (since w w1) = []"
proof -
  from findByLeadId_puts[OF assms(1)] have "put_requests (since w w1) = []" by auto
  moreover from assms have "modifyLeadByLeadId e r w = (Inr 400, w1)"
    by (auto simp: modifyLeadByLeadId_def)
  ultimately show ?thesis by simp
qed

text \<open>A CRM that answers the lookup with an empty array.\<close>

theorem modifyLeadByLeadId_not_found_witness:
  "fst (findByLeadId (script_env 1000 (Inr token_answer) (crm_script (Some []) []))
          (req_id retag_request) (start live_credentials)) = Inr \<lparr>data = Some []\<rparr> \<and>
   fst (modifyLeadByLeadId (script_env 1000 (Inr token_answer) (crm_script (Some []) []))
          retag_request (start live_credentials)) = Inr 400 \<and>
   put_requests (trace (snd (modifyLeadByLeadId (script_env 1000 (Inr token_answer) (crm_script (Some []) []))
          retag_request (start live_credentials)))) = []"
proof -
  let ?e = "script_env 1000 (Inr token_answer) (crm_script (Some []) [])"
  let ?w = "start live_credentials"
  let ?w1 = "snd (findByLeadId ?e (req_id retag_request) ?w)"
  have f: "fst (findByLeadId ?e (req_id retag_request) ?w) = Inr \<lparr>data = Some []\<rparr>"
    by (simp add: run_defs)
  then have h1: "findByLeadId ?e (req_id retag_request) ?w = (Inr \<lparr>data = Some []\<rparr>, ?w1)"
    by (metis prod.collapse)
  have h2: "data \<lparr>data = Some []\<rparr> = None \<or> data \<lparr>data = Some []\<rparr> = Some []" by simp
  from modifyLeadByLeadId_not_found[OF h1 h2]
  have m: "modifyLeadByLeadId ?e retag_request ?w = (Inr 400, ?w1)"
    and p: "put_requests (since ?w ?w1) = []" by simp_all
  from p have "put_requests (trace ?w1) = []" by (simp add: since_def start_def)
  with f m show ?thesis by simp
qed

text \<open>
  Claim C9.  The by-phone workflow returns 400 exactly when the search succeeds and its
  answer has no \<^verbatim>\<open>data\<close> member; an answer whose \<^verbatim>\<open>data\<close> is the empty array gives
  200, in the world the search left and with no update request sent.
\<close>

theorem modifyLeadsByPhoneAndTag_not_found:
  "(fst (modifyLeadsByPhoneAndTag e r w) = Inr 400 \<longleftrightarrow>
      (\<exists>resp. fst (findByPhone e (phone r) w) = Inr resp \<and> data resp = None)) \<and>
   (findByPhone e (phone r) w = (Inr resp, w1) \<and> data resp = None \<longrightarrow>
      modifyLeadsByPhoneAndTag e r w = (Inr 400, w1) \<and> put_requests (since w w1) = []) \<and>
   (findByPhone e (phone r) w = (Inr resp, w1) \<and> data resp = Some [] \<longrightarrow>
      modifyLeadsByPhoneAndTag e r w = (Inr 200, w1) \<and> put_requests (since w w1) = [])"
proof (intro conjI impI)
  show "fst (modifyLeadsByPhoneAndTag e r w) = Inr 400 \<longleftrightarrow>
      (\<exists>resp. fst (findByPhone e (phone r) w) = Inr resp \<and> data resp = None)"
    by (auto simp: modifyLeadsByPhoneAndTag_def split: prod.splits sum.splits option.splits)
next
  assume a: "findByPhone e (phone r) w = (Inr resp, w1) \<and> data resp = None"
  then show "modifyLeadsByPhoneAndTag e r w = (Inr 400, w1)"
    by (simp add: modifyLeadsByPhoneAndTag_def)
  from a findByPhone_puts[of e "phone r" w "Inr resp" w1]
  show "put_requests (since w w1) = []" by auto
next
  assume a: "findByPhone e (phone r) w = (Inr resp, w1) \<and> data resp = Some []"
  then show "modifyLeadsByPhoneAndTag e r w = (Inr 200, w1)"
    by (simp add: modifyLeadsByPhoneAndTag_def)
  from a findByPhone_puts[of e "phone r" w "Inr resp" w1]
  show "put_requests (since w w1) = []" by auto
qed

text \<open>One CRM without \<^verbatim>\<open>data\<close> in its answer, one with an empty array.\<close>

theorem modifyLeadsByPhoneAndTag_not_found_witness:
  "fst (findByPhone (script_env 1000 (Inr token_answer) (crm_script None []))
          (phone retag_request) (start live_credentials)) = Inr \<lparr>data = None\<rparr> \<and>
   fst (modifyLeadsByPhoneAndTag (script_env 1000 (Inr token_answer) (crm_script None []))
          retag_request (start live_credentials)) = Inr 400 \<and>
   fst (findByPhone (script_env 1000 (Inr token_answer) (crm_script (Some []) []))
          (phone retag_request) (start live_credentials)) = Inr \<lparr>data = Some []\<rparr> \<and>
   fst (modifyLeadsByPhoneAndTag (script_env 1000 (Inr token_answer) (crm_script (Some []) []))
          retag_request (start live_credentials)) = Inr 200 \<and>
   put_requests (trace (snd (modifyLeadsByPhoneAndTag
          (script_env 1000 (Inr token_answer) (crm_script (Some []) []))
          retag_request (start live_credentials)))) = []"
proof -
  let ?e0 = "script_env 1000 (Inr token_answer) (crm_script None [])"
  let ?e1 = "script_env 1000 (Inr token_answer) (crm_script (Some []) [])"
  let ?w = "start live_credentials"
  have f0: "fst (findByPhone ?e0 (phone retag_request) ?w) = Inr \<lparr>data = None\<rparr>"
    by (simp add: run_defs)
  then have h0: "findByPhone ?e0 (phone retag_request) ?w =
      (Inr \<lparr>data = None\<rparr>, snd (findByPhone ?e0 (phone retag_request) ?w))"
    by (metis prod.collapse)
  have f1: "fst (findByPhone ?e1 (phone retag_request) ?w) = Inr \<lparr>data = Some []\<rparr>"
    by (simp add: run_defs)
  then have h1: "findByPhone ?e1 (phone retag_request) ?w =
      (Inr \<lparr>data = Some []\<rparr>, snd (findByPhone ?e1 (phone retag_request) ?w))"
    by (metis prod.collapse)
  from modifyLeadsByPhoneAndTag_not_found
         [of ?e0 retag_request ?w "\<lparr>data = None\<rparr>" "snd (findByPhone ?e0 (phone retag_request) ?w)"] h0
  have m0: "fst (modifyLeadsByPhoneAndTag ?e0 retag_request ?w) = Inr 400" by simp
  from modifyLeadsByPhoneAndTag_not_found
         [of ?e1 retag_request ?w "\<lparr>data = Some []\<rparr>" "snd (findByPhone ?e1 (phone retag_request) ?w)"] h1
  have m1: "modifyLeadsByPhoneAndTag ?e1 retag_request ?w =
        (Inr 200, snd (findByPhone ?e1 (phone retag_request) ?w))"
    and p1: "put_requests (since ?w (snd (findByPhone ?e1 (phone retag_request) ?w))) = []"
    by simp_all
  from p1 have "put_requests (trace (snd (findByPhone ?e1 (phone retag_request) ?w))) = []"
    by (simp add: since_def start_def)
  with f0 f1 m0 m1 show ?thesis by simp
qed

section \<open>The tags written back\<close>

lemma modifyLeadsByPhoneAndTag_found:
  assumes "findByPhone e (phone r) w = (Inr resp, w1)" and "data resp = Some leads"
  shows "modifyLeadsByPhoneAndTag e r w =
     (case forEachLead e (tag r) (tagFilter r) leads w1 of
        (Inl err, w2) \<Rightarrow> (Inl err, w2)
      | (Inr _, w2) \<Rightarrow> (Inr 200, w2))"
  using assms by (simp add: modifyLeadsByPhoneAndTag_def)

lemma forEachLead_puts:
  assumes "forEachLead e tg flt leads w = (res, w')"
  shows "\<exists>n\<le>length leads.
           put_requests (since w w') =
             map (\<lambda>l. put_of (lead_id l) (updatedTags tg flt (Tag l))) (take n leads) \<and>
           (res = Inr () \<longrightarrow> n = length leads)"
proof -
  let ?f = "\<lambda>l. put_of (lead_id l) (updatedTags tg flt (Tag l))"
  from forEachLead_run[OF assms] obtain k wk where k: "k \<le> length leads"
    and ok: "updates_succeed e tg flt (take k leads) w wk"
    and fin: "if k = length leads then res = Inr () \<and> w' = wk
        else \<exists>err. res = Inl err \<and>
               updateLeadTag e (lead_id (leads ! k)) (updatedTags tg flt (Tag (leads ! k))) wk
                 = (Inl err, w')" by blast
  from updates_succeed_puts[OF ok] obtain evs where
    evs: "trace wk = trace w @ evs" "put_requests evs = map ?f (take k leads)" by blast
  show ?thesis
  proof (cases "k = length leads")
    case True
    with fin evs have "put_requests (since w w') = map ?f (take k leads)" by simp
    with True show ?thesis by auto
  next
    case False
    with k have lt: "k < length leads" by simp
    from False fin obtain err where err: "res = Inl err"
      and up: "updateLeadTag e (lead_id (leads ! k)) (updatedTags tg flt (Tag (leads ! k))) wk = (Inl err, w')"
      by auto
    from updateLeadTag_puts[OF up] obtain evs2 where
      evs2: "trace w' = trace wk @ evs2"
        "put_requests evs2 = [?f (leads ! k)] \<or> put_requests evs2 = []" by auto
    from evs evs2 have tr: "trace w' = trace w @ (evs @ evs2)" by simp
    from evs2(2) show ?thesis
    proof
      assume "put_requests evs2 = [?f (leads ! k)]"
      with evs tr lt have "put_requests (since w w') = map ?f (take (Suc k) leads)"
        by (simp add: take_Suc_conv_app_nth)
      with lt err show ?thesis by (intro exI[of _ "Suc k"]) simp
    next
      assume "put_requests evs2 = []"
      with evs tr have "put_requests (since w w') = map ?f (take k leads)" by simp
      with k err show ?thesis by (intro exI[of _ k]) simp
    qed
  qed
qed

lemma updatedTags_absent: "updatedTags tg flt None = [\<lparr>name = tg\<rparr>]"
  by (simp add: updatedTags_def)

lemma updatedTags_present:
  "updatedTags tg flt (Some ts) = filter (\<lambda>t. \<not> prefix flt (name t)) ts @ [\<lparr>name = tg\<rparr>]"
  by (simp add: updatedTags_def startsWith_prefix)

lemma updatedTags_prefix:
  "updatedTags tg flt T =
     filter (\<lambda>t. \<not> prefix flt (name t)) (case T of None \<Rightarrow> [] | Some ts \<Rightarrow> ts) @ [\<lparr>name = tg\<rparr>]"
  by (simp add: updatedTags_def startsWith_prefix)

lemma modifyLeadByLeadId_puts_exact:
  assumes "findByLeadId e (req_id r) w = (Inr resp, w1)" and "data resp = Some (l # rest)"
  shows "put_requests (since w1 (snd (modifyLeadByLeadId e r w))) =
           (if fst (modifyLeadByLeadId e r w) = Inr 200 \<or>
               (\<exists>m. fst (modifyLeadByLeadId e r w) = Inl (ApiCallFailure m))
            then [put_of (lead_id l) (updatedTags (tag r) (tagFilter r) (Tag l))] else [])"
proof -
  let ?ts = "updatedTags (tag r) (tagFilter r) (Tag l)"
  obtain r2 w2 where up: "updateLeadTag e (lead_id l) ?ts w1 = (r2, w2)" by fastforce
  from modifyLeadByLeadId_found[OF assms] up
  have M: "modifyLeadByLeadId e r w = (case r2 of Inl err \<Rightarrow> Inl err | Inr _ \<Rightarrow> Inr 200, w2)"
    by (simp split: sum.splits)
  have a: "fst (modifyLeadByLeadId e r w) = Inr 200 \<longleftrightarrow> (\<exists>b. r2 = Inr b)"
    using M by (cases r2) auto
  have b: "(\<exists>m. fst (modifyLeadByLeadId e r w) = Inl (ApiCallFailure m)) \<longleftrightarrow>
           (\<exists>m. r2 = Inl (ApiCallFailure m))"
    using M by (cases r2) auto
  from M have "snd (modifyLeadByLeadId e r w) = w2" by simp
  with updateLeadTag_puts_exact[OF up] a b show ?thesis by simp
qed

lemma modifyLeadByLeadId_cooperative:
  assumes "findByLeadId e (req_id r) w = (Inr resp, w1)" and "data resp = Some (l # rest)"
    and "cooperative e"
  shows "fst (modifyLeadByLeadId e r w) = Inr 200"
proof -
  from updateLeadTag_cooperative[OF assms(3)] obtain b where
    "fst (updateLeadTag e (lead_id l) (updatedTags (tag r) (tagFilter r) (Tag l)) w1) = Inr b"
    by blast
  then obtain w2 where
    "updateLeadTag e (lead_id l) (updatedTags (tag r) (tagFilter r) (Tag l)) w1 = (Inr b, w2)"
    by (metis prod.collapse)
  with modifyLeadByLeadId_found[OF assms(1,2)] show ?thesis by simp
qed

lemma modifyLeadsByPhoneAndTag_puts:
  assumes "findByPhone e (phone r) w = (Inr resp, w1)" and "data resp = Some leads"
  shows "(\<exists>n\<le>length leads.
            put_requests (since w1 (snd (modifyLeadsByPhoneAndTag e r w))) =
              map (\<lambda>l. put_of (lead_id l) (updatedTags (tag r) (tagFilter r) (Tag l))) (take n leads) \<and>
            (fst (modifyLeadsByPhoneAndTag e r w) = Inr 200 \<longrightarrow> n = length leads)) \<and>
         (fst (modifyLeadsByPhoneAndTag e r w) = Inr 200 \<or>
            (\<exists>err. fst (modifyLeadsByPhoneAndTag e r w) = Inl err)) \<and>
         (cooperative e \<longrightarrow> fst (modifyLeadsByPhoneAndTag e r w) = Inr 200)"
proof -
  obtain r2 w2 where loop: "forEachLead e (tag r) (tagFilter r) leads w1 = (r2, w2)" by fastforce
  from modifyLeadsByPhoneAndTag_found[OF assms] loop
  have M: "modifyLeadsByPhoneAndTag e r w = (case r2 of Inl err \<Rightarrow> Inl err | Inr _ \<Rightarrow> Inr 200, w2)"
    by (simp split: sum.splits)
  from forEachLead_puts[OF loop] obtain n where n: "n \<le> length leads"
    "put_requests (since w1 w2) =
       map (\<lambda>l. put_of (lead_id l) (updatedTags (tag r) (tagFilter r) (Tag l))) (take n leads)"
    "r2 = Inr () \<longrightarrow> n = length leads"
    by auto
  have ok: "fst (modifyLeadsByPhoneAndTag e r w) = Inr 200 \<longleftrightarrow> r2 = Inr ()"
    using M by (cases r2) auto
  have 1: "\<exists>n\<le>length leads.
            put_requests (since w1 (snd (modifyLeadsByPhoneAndTag e r w))) =
              map (\<lambda>l. put_of (lead_id l) (updatedTags (tag r) (tagFilter r) (Tag l))) (take n leads) \<and>
            (fst (modifyLeadsByPhoneAndTag e r w) = Inr 200 \<longrightarrow> n = length leads)"
    using n ok M by (intro exI[of _ n]) simp
  have 2: "fst (modifyLeadsByPhoneAndTag e r w) = Inr 200 \<or>
            (\<exists>err. fst (modifyLeadsByPhoneAndTag e r w) = Inl err)"
    using M by (cases r2) auto
  have 3: "cooperative e \<longrightarrow> fst (modifyLeadsByPhoneAndTag e r w) = Inr 200"
    using forEachLead_cooperative[of e "tag r" "tagFilter r" leads w1] loop ok by auto
  from 1 2 3 show ?thesis by blast
qed

text \<open>
  Claim C2.  For every tag list \<open>ts\<close> of the lead, every tag string and every filter
  string, the tag sequence written back is \<open>ts\<close> without the tags whose name has the
  filter as a prefix (all of them), the others in their order, followed by the one tag
  \<^verbatim>\<open>{name: tag}\<close>; nothing is deduplicated.

  By id: once the lookup has found the lead, the workflow is the call of
  \<^verbatim>\<open>updateLeadTag\<close> with exactly this sequence, returning 200 when the call succeeds and
  raising its failure otherwise.  The update request with this sequence as its body is
  the one request sent after the lookup; it is sent exactly when the workflow returns
  200 or raises a failure of the CRM call itself (a failure of the store or of the token
  endpoint stops the call before the request).  Where nothing outside fails the workflow
  returns 200, so the sequence is written.

  By phone: the update requests sent after the search are those of the leads, in order,
  each with this sequence computed from the lead's own tags, up to the lead whose update
  fails; all of them when the workflow returns 200, which it does where nothing outside
  fails.  It never returns 400 once the search has answered with a \<^verbatim>\<open>data\<close> array.
\<close>

theorem modifyLeadByLeadId_written_tags:
  "(findByLeadId e (req_id r) w = (Inr resp, w1) \<and> data resp = Some (l # rest) \<and> Tag l = Some ts \<longrightarrow>
      modifyLeadByLeadId e r w =
        (case updateLeadTag e (lead_id l)
                (filter (\<lambda>t. \<not> prefix (tagFilter r) (name t)) ts @ [\<lparr>name = tag r\<rparr>]) w1 of
           (Inl err, w2) \<Rightarrow> (Inl err, w2)
         | (Inr _, w2) \<Rightarrow> (Inr 200, w2)) \<and>
      put_requests (since w1 (snd (modifyLeadByLeadId e r w))) =
        (if fst (modifyLeadByLeadId e r w) = Inr 200 \<or>
            (\<exists>m. fst (modifyLeadByLeadId e r w) = Inl (ApiCallFailure m))
         then [put_of (lead_id l)
                 (filter (\<lambda>t. \<not> prefix (tagFilter r) (name t)) ts @ [\<lparr>name = tag r\<rparr>])]
         else []) \<and>
      (cooperative e \<longrightarrow> fst (modifyLeadByLeadId e r w) = Inr 200)) \<and>
   (findByPhone e (phone r) w = (Inr resp, w1) \<and> data resp = Some leads \<longrightarrow>
      (\<exists>n\<le>length leads.
          put_requests (since w1 (snd (modifyLeadsByPhoneAndTag e r w))) =
            map (\<lambda>l. put_of (lead_id l)
                       (filter (\<lambda>t. \<not> prefix (tagFilter r) (name t))
                          (case Tag l of None \<Rightarrow> [] | Some ts \<Rightarrow> ts) @ [\<lparr>name = tag r\<rparr>]))
                (take n leads) \<and>
          (fst (modifyLeadsByPhoneAndTag e r w) = Inr 200 \<longrightarrow> n = length leads)) \<and>
      (fst (modifyLeadsByPhoneAndTag e r w) = Inr 200 \<or>
         (\<exists>err. fst (modifyLeadsByPhoneAndTag e r w) = Inl err)) \<and>
      (cooperative e \<longrightarrow> fst (modifyLeadsByPhoneAndTag e r w) = Inr 200))"
proof (intro conjI impI)
  assume a: "findByLeadId e (req_id r) w = (Inr resp, w1) \<and> data resp = Some (l # rest) \<and>
    Tag l = Some ts"
  then have f: "findByLeadId e (req_id r) w = (Inr resp, w1)" and d: "data resp = Some (l # rest)"
    and t: "updatedTags (tag r) (tagFilter r) (Tag l) =
              filter (\<lambda>t. \<not> prefix (tagFilter r) (name t)) ts @ [\<lparr>name = tag r\<rparr>]"
    by (simp_all add: updatedTags_prefix)
  from modifyLeadByLeadId_found[OF f d] t
  show "modifyLeadByLeadId e r w =
        (case updateLeadTag e (lead_id l)
                (filter (\<lambda>t. \<not> prefix (tagFilter r) (name t)) ts @ [\<lparr>name = tag r\<rparr>]) w1 of
           (Inl err, w2) \<Rightarrow> (Inl err, w2)
         | (Inr _, w2) \<Rightarrow> (Inr 200, w2))" by simp
  from modifyLeadByLeadId_puts_exact[OF f d] t
  show "put_requests (since w1 (snd (modifyLeadByLeadId e r w))) =
        (if fst (modifyLeadByLeadId e r w) = Inr 200 \<or>
            (\<exists>m. fst (modifyLeadByLeadId e r w) = Inl (ApiCallFailure m))
         then [put_of (lead_id l)
                 (filter (\<lambda>t. \<not> prefix (tagFilter r) (name t)) ts @ [\<lparr>name = tag r\<rparr>])]
         else [])" by simp
  show "cooperative e \<Longrightarrow> fst (modifyLeadByLeadId e r w) = Inr 200"
    by (rule modifyLeadByLeadId_cooperative[OF f d])
next
  assume a: "findByPhone e (phone r) w = (Inr resp, w1) \<and> data resp = Some leads"
  then have f: "findByPhone e (phone r) w = (Inr resp, w1)" and d: "data resp = Some leads"
    by simp_all
  note P = modifyLeadsByPhoneAndTag_puts[OF f d, unfolded updatedTags_prefix]
  from P show "\<exists>n\<le>length leads.
          put_requests (since w1 (snd (modifyLeadsByPhoneAndTag e r w))) =
            map (\<lambda>l. put_of (lead_id l)
                       (filter (\<lambda>t. \<not> prefix (tagFilter r) (name t))
                          (case Tag l of None \<Rightarrow> [] | Some ts \<Rightarrow> ts) @ [\<lparr>name = tag r\<rparr>]))
                (take n leads) \<and>
          (fst (modifyLeadsByPhoneAndTag e r w) = Inr 200 \<longrightarrow> n = length leads)"
    by (rule conjunct1)
  from P show "fst (modifyLeadsByPhoneAndTag e r w) = Inr 200 \<or>
         (\<exists>err. fst (modifyLeadsByPhoneAndTag e r w) = Inl err)" by blast
  from P show "cooperative e \<Longrightarrow> fst (modifyLeadsByPhoneAndTag e r w) = Inr 200" by blast
qed


text \<open>The example of the specification, by id: \<^verbatim>\<open>status:new\<close> goes, \<^verbatim>\<open>source:web\<close>
  stays, \<^verbatim>\<open>status:contacted\<close> is appended.  By phone: three leads, all three written.\<close>

theorem modifyLeadByLeadId_written_tags_witness:
  "fst (findByLeadId (script_env 1000 (Inr token_answer) (crm_script (Some [lead_42]) []))
          (req_id retag_request) (start live_credentials)) = Inr \<lparr>data = Some [lead_42]\<rparr> \<and>
   Tag lead_42 = Some [\<lparr>name = ''status:new''\<rparr>, \<lparr>name = ''source:web''\<rparr>] \<and>
   tagFilter retag_request = ''status:'' \<and> tag retag_request = ''status:contacted'' \<and>
   fst (modifyLeadByLeadId (script_env 1000 (Inr token_answer) (crm_script (Some [lead_42]) []))
          retag_request (start live_credentials)) = Inr 200 \<and>
   put_requests (since
      (snd (findByLeadId (script_env 1000 (Inr token_answer) (crm_script (Some [lead_42]) []))
          (req_id retag_request) (start live_credentials)))
      (snd (modifyLeadByLeadId (script_env 1000 (Inr token_answer) (crm_script (Some [lead_42]) []))
          retag_request (start live_credentials))))
     = [put_of ''42'' [\<lparr>name = ''source:web''\<rparr>, \<lparr>name = ''status:contacted''\<rparr>]] \<and>
   fst (findByPhone (script_env 1000 (Inr token_answer) (crm_script (Some three_leads) []))
          (phone retag_request) (start live_credentials)) = Inr \<lparr>data = Some three_leads\<rparr> \<and>
   fst (modifyLeadsByPhoneAndTag (script_env 1000 (Inr token_answer) (crm_script (Some three_leads) []))
          retag_request (start live_credentials)) = Inr 200 \<and>
   put_requests (since
      (snd (findByPhone (script_env 1000 (Inr token_answer) (crm_script (Some three_leads) []))
          (phone retag_request) (start live_credentials)))
      (snd (modifyLeadsByPhoneAndTag (script_env 1000 (Inr token_answer) (crm_script (Some three_leads) []))
          retag_request (start live_credentials))))
     = [put_of ''a'' [\<lparr>name = ''source:web''\<rparr>, \<lparr>name = ''status:contacted''\<rparr>],
        put_of ''b'' [\<lparr>name = ''status:contacted''\<rparr>],
        put_of ''c'' [\<lparr>name = ''status:contacted''\<rparr>]]"
proof -
  let ?e = "script_env 1000 (Inr token_answer) (crm_script (Some [lead_42]) [])"
  let ?w = "start live_credentials"
  let ?w1 = "snd (findByLeadId ?e (req_id retag_request) ?w)"
  let ?ts = "[\<lparr>name = ''status:new''\<rparr>, \<lparr>name = ''source:web''\<rparr>]"
  have f: "fst (findByLeadId ?e (req_id retag_request) ?w) = Inr \<lparr>data = Some [lead_42]\<rparr>"
    by (simp add: run_defs)
  then have h1: "findByLeadId ?e (req_id retag_request) ?w = (Inr \<lparr>data = Some [lead_42]\<rparr>, ?w1)"
    by (metis prod.collapse)
  have t: "Tag lead_42 = Some ?ts" by (simp add: lead_42_def)
  have c: "cooperative ?e" by (rule cooperative_script)
  note byid = modifyLeadByLeadId_written_tags
         [where e = ?e and r = retag_request and w = ?w and resp = "\<lparr>data = Some [lead_42]\<rparr>"
            and ?w1.0 = ?w1 and l = lead_42 and rest = "[]" and ts = ?ts, THEN conjunct1]
  have hyp: "findByLeadId ?e (req_id retag_request) ?w = (Inr \<lparr>data = Some [lead_42]\<rparr>, ?w1) \<and>
      data \<lparr>data = Some [lead_42]\<rparr> = Some [lead_42] \<and> Tag lead_42 = Some ?ts"
    using h1 t by simp
  note R = byid[THEN mp, OF hyp]
  from R[THEN conjunct2, THEN conjunct2, THEN mp, OF c]
  have m: "fst (modifyLeadByLeadId ?e retag_request ?w) = Inr 200" .
  from R[THEN conjunct2, THEN conjunct1]
  have "put_requests (since ?w1 (snd (modifyLeadByLeadId ?e retag_request ?w)))
      = [put_of (lead_id lead_42)
           (filter (\<lambda>t. \<not> prefix (tagFilter retag_request) (name t)) ?ts
              @ [\<lparr>name = tag retag_request\<rparr>])]"
    by (simp only: m simp_thms if_True)
  then have p: "put_requests (since ?w1 (snd (modifyLeadByLeadId ?e retag_request ?w)))
      = [put_of ''42'' [\<lparr>name = ''source:web''\<rparr>, \<lparr>name = ''status:contacted''\<rparr>]]"
    by (simp add: lead_42_def retag_request_def)
  let ?e3 = "script_env 1000 (Inr token_answer) (crm_script (Some three_leads) [])"
  let ?v1 = "snd (findByPhone ?e3 (phone retag_request) ?w)"
  have f3: "fst (findByPhone ?e3 (phone retag_request) ?w) = Inr \<lparr>data = Some three_leads\<rparr>"
    by (simp add: run_defs)
  then have g1: "findByPhone ?e3 (phone retag_request) ?w = (Inr \<lparr>data = Some three_leads\<rparr>, ?v1)"
    by (metis prod.collapse)
  have c3: "cooperative ?e3" by (rule cooperative_script)
  note byphone = modifyLeadByLeadId_written_tags
         [where e = ?e3 and r = retag_request and w = ?w and resp = "\<lparr>data = Some three_leads\<rparr>"
            and ?w1.0 = ?v1 and leads = three_leads, THEN conjunct2]
  have hyp3: "findByPhone ?e3 (phone retag_request) ?w = (Inr \<lparr>data = Some three_leads\<rparr>, ?v1) \<and>
      data \<lparr>data = Some three_leads\<rparr> = Some three_leads"
    using g1 by simp
  note R3 = byphone[THEN mp, OF hyp3]
  from R3[THEN conjunct2, THEN conjunct2, THEN mp, OF c3]
  have m3: "fst (modifyLeadsByPhoneAndTag ?e3 retag_request ?w) = Inr 200" .
  from R3[THEN conjunct1] obtain n where n: "n \<le> length three_leads"
    "put_requests (since ?v1 (snd (modifyLeadsByPhoneAndTag ?e3 retag_request ?w)))
      = map (\<lambda>l. put_of (lead_id l)
                       (filter (\<lambda>t. \<not> prefix (tagFilter retag_request) (name t))
                          (case Tag l of None \<Rightarrow> [] | Some ts \<Rightarrow> ts) @ [\<lparr>name = tag retag_request\<rparr>]))
            (take n three_leads)"
    "fst (modifyLeadsByPhoneAndTag ?e3 retag_request ?w) = Inr 200 \<longrightarrow> n = length three_leads"
    by blast
  from n(3) m3 have "n = length three_leads" by (rule mp)
  with n(2) have "put_requests (since ?v1 (snd (modifyLeadsByPhoneAndTag ?e3 retag_request ?w)))
      = map (\<lambda>l. put_of (lead_id l)
                       (filter (\<lambda>t. \<not> prefix (tagFilter retag_request) (name t))
                          (case Tag l of None \<Rightarrow> [] | Some ts \<Rightarrow> ts) @ [\<lparr>name = tag retag_request\<rparr>]))
            three_leads"
    by (simp only: take_all order_refl)
  then have p3: "put_requests (since ?v1 (snd (modifyLeadsByPhoneAndTag ?e3 retag_request ?w)))
     = [put_of ''a'' [\<lparr>name = ''source:web''\<rparr>, \<lparr>name = ''status:contacted''\<rparr>],
        put_of ''b'' [\<lparr>name = ''status:contacted''\<rparr>],
        put_of ''c'' [\<lparr>name = ''status:contacted''\<rparr>]]"
    by (simp add: three_leads_def retag_request_def)
  have q: "tagFilter retag_request = ''status:''" "tag retag_request = ''status:contacted''"
    by (simp_all add: retag_request_def)
  show ?thesis
    apply (intro conjI)
            apply (rule f)
           apply (rule t)
          apply (rule q(1))
         apply (rule q(2))
        apply (rule m)
       apply (rule p)
      apply (rule f3)
     apply (rule m3)
    apply (rule p3)
    done
qed

text \<open>
  Claim C10.  A lead whose \<^verbatim>\<open>Tag\<close> member is absent or null is treated as a lead without
  tags.  By id: once the lookup has found such a lead, the workflow is the call of
  \<^verbatim>\<open>updateLeadTag\<close> with exactly \<^verbatim>\<open>[{name: tag}]\<close>, returning 200 when it succeeds; the
  update request with this body is sent exactly when the workflow returns 200 or raises
  a failure of the CRM call itself, and where nothing outside fails the workflow returns
  200.  By phone: the loop, arriving at such a lead, calls \<^verbatim>\<open>updateLeadTag\<close> with exactly
  \<^verbatim>\<open>[{name: tag}]\<close> and goes on with the next lead when the call succeeds; the update
  requests follow the leads in order (all of them when the workflow returns 200, which
  it does where nothing outside fails), and the request for a lead without \<^verbatim>\<open>Tag\<close>
  carries exactly \<^verbatim>\<open>[{name: tag}]\<close>.
\<close>

theorem absent_Tag_writes_single_tag:
  "(findByLeadId e (req_id r) w = (Inr resp, w1) \<and> data resp = Some (l # rest) \<and> Tag l = None \<longrightarrow>
      modifyLeadByLeadId e r w =
        (case updateLeadTag e (lead_id l) [\<lparr>name = tag r\<rparr>] w1 of
           (Inl err, w2) \<Rightarrow> (Inl err, w2)
         | (Inr _, w2) \<Rightarrow> (Inr 200, w2)) \<and>
      put_requests (since w1 (snd (modifyLeadByLeadId e r w))) =
        (if fst (modifyLeadByLeadId e r w) = Inr 200 \<or>
            (\<exists>m. fst (modifyLeadByLeadId e r w) = Inl (ApiCallFailure m))
         then [put_of (lead_id l) [\<lparr>name = tag r\<rparr>]]
         else []) \<and>
      (cooperative e \<longrightarrow> fst (modifyLeadByLeadId e r w) = Inr 200)) \<and>
   (Tag l = None \<longrightarrow>
      forEachLead e tg flt (l # ls) w =
        (case updateLeadTag e (lead_id l) [\<lparr>name = tg\<rparr>] w of
           (Inl err, w2) \<Rightarrow> (Inl err, w2)
         | (Inr _, w2) \<Rightarrow> forEachLead e tg flt ls w2)) \<and>
   (findByPhone e (phone r) w = (Inr resp, w1) \<and> data resp = Some leads \<longrightarrow>
      length (put_requests (since w1 (snd (modifyLeadsByPhoneAndTag e r w)))) \<le> length leads \<and>
      (fst (modifyLeadsByPhoneAndTag e r w) = Inr 200 \<longrightarrow>
         length (put_requests (since w1 (snd (modifyLeadsByPhoneAndTag e r w)))) = length leads) \<and>
      (\<forall>i<length (put_requests (since w1 (snd (modifyLeadsByPhoneAndTag e r w)))).
          Tag (leads ! i) = None \<longrightarrow>
          put_requests (since w1 (snd (modifyLeadsByPhoneAndTag e r w))) ! i
            = put_of (lead_id (leads ! i)) [\<lparr>name = tag r\<rparr>]) \<and>
      (cooperative e \<longrightarrow> fst (modifyLeadsByPhoneAndTag e r w) = Inr 200))"
proof (intro conjI impI)
  assume a: "findByLeadId e (req_id r) w = (Inr resp, w1) \<and> data resp = Some (l # rest) \<and>
    Tag l = None"
  then have f: "findByLeadId e (req_id r) w = (Inr resp, w1)" and d: "data resp = Some (l # rest)"
    and t: "updatedTags (tag r) (tagFilter r) (Tag l) = [\<lparr>name = tag r\<rparr>]"
    by (simp_all add: updatedTags_absent)
  from modifyLeadByLeadId_found[OF f d] t
  show "modifyLeadByLeadId e r w =
        (case updateLeadTag e (lead_id l) [\<lparr>name = tag r\<rparr>] w1 of
           (Inl err, w2) \<Rightarrow> (Inl err, w2)
         | (Inr _, w2) \<Rightarrow> (Inr 200, w2))" by simp
  from modifyLeadByLeadId_puts_exact[OF f d] t
  show "put_requests (since w1 (snd (modifyLeadByLeadId e r w))) =
        (if fst (modifyLeadByLeadId e r w) = Inr 200 \<or>
            (\<exists>m. fst (modifyLeadByLeadId e r w) = Inl (ApiCallFailure m))
         then [put_of (lead_id l) [\<lparr>name = tag r\<rparr>]]
         else [])" by simp
  show "cooperative e \<Longrightarrow> fst (modifyLeadByLeadId e r w) = Inr 200"
    by (rule modifyLeadByLeadId_cooperative[OF f d])
next
  assume "Tag l = None"
  then show "forEachLead e tg flt (l # ls) w =
        (case updateLeadTag e (lead_id l) [\<lparr>name = tg\<rparr>] w of
           (Inl err, w2) \<Rightarrow> (Inl err, w2)
         | (Inr _, w2) \<Rightarrow> forEachLead e tg flt ls w2)"
    by (simp add: updatedTags_absent)
next
  assume a: "findByPhone e (phone r) w = (Inr resp, w1) \<and> data resp = Some leads"
  then have f: "findByPhone e (phone r) w = (Inr resp, w1)" and d: "data resp = Some leads"
    by simp_all
  let ?puts = "put_requests (since w1 (snd (modifyLeadsByPhoneAndTag e r w)))"
  from modifyLeadsByPhoneAndTag_puts[OF f d] obtain n where n: "n \<le> length leads"
    "?puts = map (\<lambda>l. put_of (lead_id l) (updatedTags (tag r) (tagFilter r) (Tag l))) (take n leads)"
    "fst (modifyLeadsByPhoneAndTag e r w) = Inr 200 \<longrightarrow> n = length leads"
    and c: "cooperative e \<longrightarrow> fst (modifyLeadsByPhoneAndTag e r w) = Inr 200"
    by blast
  from n(1,2) show "length ?puts \<le> length leads" by simp
  from n show "fst (modifyLeadsByPhoneAndTag e r w) = Inr 200 \<Longrightarrow> length ?puts = length leads"
    by simp
  from n(1,2) show "\<forall>i<length ?puts. Tag (leads ! i) = None \<longrightarrow>
          ?puts ! i = put_of (lead_id (leads ! i)) [\<lparr>name = tag r\<rparr>]"
    by (auto simp: updatedTags_absent)
  from c show "cooperative e \<Longrightarrow> fst (modifyLeadsByPhoneAndTag e r w) = Inr 200" by simp
qed

text \<open>By id, a lead without \<^verbatim>\<open>Tag\<close>; by phone, three leads of which the second has
  none.\<close>

theorem absent_Tag_writes_single_tag_witness:
  "fst (findByLeadId
          (script_env 1000 (Inr token_answer) (crm_script (Some [\<lparr>lead_id = ''b'', Tag = None\<rparr>]) []))
          (req_id retag_request) (start live_credentials))
     = Inr \<lparr>data = Some [\<lparr>lead_id = ''b'', Tag = None\<rparr>]\<rparr> \<and>
   fst (modifyLeadByLeadId
          (script_env 1000 (Inr token_answer) (crm_script (Some [\<lparr>lead_id = ''b'', Tag = None\<rparr>]) []))
          retag_request (start live_credentials)) = Inr 200 \<and>
   put_requests (since
      (snd (findByLeadId
          (script_env 1000 (Inr token_answer) (crm_script (Some [\<lparr>lead_id = ''b'', Tag = None\<rparr>]) []))
          (req_id retag_request) (start live_credentials)))
      (snd (modifyLeadByLeadId
          (script_env 1000 (Inr token_answer) (crm_script (Some [\<lparr>lead_id = ''b'', Tag = None\<rparr>]) []))
          retag_request (start live_credentials))))
     = [put_of ''b'' [\<lparr>name = ''status:contacted''\<rparr>]] \<and>
   fst (findByPhone (script_env 1000 (Inr token_answer) (crm_script (Some three_leads) []))
          (phone retag_request) (start live_credentials)) = Inr \<lparr>data = Some three_leads\<rparr> \<and>
   Tag (three_leads ! 1) = None \<and> lead_id (three_leads ! 1) = ''b'' \<and>
   fst (modifyLeadsByPhoneAndTag (script_env 1000 (Inr token_answer) (crm_script (Some three_leads) []))
          retag_request (start live_credentials)) = Inr 200 \<and>
   put_requests (since
      (snd (findByPhone (script_env 1000 (Inr token_answer) (crm_script (Some three_leads) []))
          (phone retag_request) (start live_credentials)))
      (snd (modifyLeadsByPhoneAndTag (script_env 1000 (Inr token_answer) (crm_script (Some three_leads) []))
          retag_request (start live_credentials)))) ! 1
     = put_of ''b'' [\<lparr>name = ''status:contacted''\<rparr>]"
proof -
  let ?b = "\<lparr>lead_id = ''b'', Tag = None\<rparr>"
  let ?e = "script_env 1000 (Inr token_answer) (crm_script (Some [?b]) [])"
  let ?w = "start live_credentials"
  let ?w1 = "snd (findByLeadId ?e (req_id retag_request) ?w)"
  have f: "fst (findByLeadId ?e (req_id retag_request) ?w) = Inr \<lparr>data = Some [?b]\<rparr>"
    by (simp add: run_defs)
  then have h1: "findByLeadId ?e (req_id retag_request) ?w = (Inr \<lparr>data = Some [?b]\<rparr>, ?w1)"
    by (metis prod.collapse)
  have c: "cooperative ?e" by (rule cooperative_script)
  note byid = absent_Tag_writes_single_tag
         [where e = ?e and r = retag_request and w = ?w and resp = "\<lparr>data = Some [?b]\<rparr>"
            and ?w1.0 = ?w1 and l = ?b and rest = "[]", THEN conjunct1]
  have hyp: "findByLeadId ?e (req_id retag_request) ?w = (Inr \<lparr>data = Some [?b]\<rparr>, ?w1) \<and>
      data \<lparr>data = Some [?b]\<rparr> = Some [?b] \<and> Tag ?b = None"
    using h1 by simp
  note R = byid[THEN mp, OF hyp]
  from R[THEN conjunct2, THEN conjunct2, THEN mp, OF c]
  have m: "fst (modifyLeadByLeadId ?e retag_request ?w) = Inr 200" .
  from R[THEN conjunct2, THEN conjunct1]
  have "put_requests (since ?w1 (snd (modifyLeadByLeadId ?e retag_request ?w)))
      = [put_of (lead_id ?b) [\<lparr>name = tag retag_request\<rparr>]]"
    by (simp only: m simp_thms if_True)
  then have p: "put_requests (since ?w1 (snd (modifyLeadByLeadId ?e retag_request ?w)))
      = [put_of ''b'' [\<lparr>name = ''status:contacted''\<rparr>]]"
    by (simp add: retag_request_def)
  let ?e3 = "script_env 1000 (Inr token_answer) (crm_script (Some three_leads) [])"
  let ?v1 = "snd (findByPhone ?e3 (phone retag_request) ?w)"
  let ?v' = "snd (modifyLeadsByPhoneAndTag ?e3 retag_request ?w)"
  have f3: "fst (findByPhone ?e3 (phone retag_request) ?w) = Inr \<lparr>data = Some three_leads\<rparr>"
    by (simp add: run_defs)
  then have g1: "findByPhone ?e3 (phone retag_request) ?w = (Inr \<lparr>data = Some three_leads\<rparr>, ?v1)"
    by (metis prod.collapse)
  have t: "Tag (three_leads ! 1) = None" "lead_id (three_leads ! 1) = ''b''"
    "length three_leads = 3"
    by (simp_all add: three_leads_def)
  have c3: "cooperative ?e3" by (rule cooperative_script)
  note byphone = absent_Tag_writes_single_tag
         [where e = ?e3 and r = retag_request and w = ?w and resp = "\<lparr>data = Some three_leads\<rparr>"
            and ?w1.0 = ?v1 and leads = three_leads, THEN conjunct2, THEN conjunct2]
  have hyp3: "findByPhone ?e3 (phone retag_request) ?w = (Inr \<lparr>data = Some three_leads\<rparr>, ?v1) \<and>
      data \<lparr>data = Some three_leads\<rparr> = Some three_leads"
    using g1 by simp
  note R3 = byphone[THEN mp, OF hyp3]
  from R3[THEN conjunct2, THEN conjunct2, THEN conjunct2, THEN mp, OF c3]
  have m3: "fst (modifyLeadsByPhoneAndTag ?e3 retag_request ?w) = Inr 200" .
  from R3[THEN conjunct2, THEN conjunct1, THEN mp, OF m3]
  have len: "length (put_requests (since ?v1 ?v')) = length three_leads" .
  from R3[THEN conjunct2, THEN conjunct2, THEN conjunct1]
  have each: "\<forall>i<length (put_requests (since ?v1 ?v')). Tag (three_leads ! i) = None \<longrightarrow>
          put_requests (since ?v1 ?v') ! i
            = put_of (lead_id (three_leads ! i)) [\<lparr>name = tag retag_request\<rparr>]" .
  from len each t have "put_requests (since ?v1 ?v') ! 1
      = put_of (lead_id (three_leads ! 1)) [\<lparr>name = tag retag_request\<rparr>]"
    by simp
  then have p3: "put_requests (since ?v1 ?v') ! 1 = put_of ''b'' [\<lparr>name = ''status:contacted''\<rparr>]"
    using t by (simp add: retag_request_def)
  show ?thesis
    apply (intro conjI)
           apply (rule f)
          apply (rule m)
         apply (rule p)
        apply (rule f3)
       apply (rule t(1))
      apply (rule t(2))
     apply (rule m3)
    apply (rule p3)
    done
qed

section \<open>The batch by phone\<close>

text \<open>
  Claim C5.  Let the search of a by-phone request return \<open>n\<close> leads.  Then there is a
  \<open>k \<le> n\<close> such that the updates of the first \<open>k\<close> leads were called one after the
  other, in the order of the leads, and each succeeded, their \<open>k\<close> update requests
  standing in the trace in that order.  If \<open>k = n\<close> the workflow returns 200.  Otherwise
  the update of lead \<open>k + 1\<close> was called next and failed; its failure is what the
  workflow raises, and the world the workflow leaves is the one this failed call
  left: no update of a later lead and no request undoing an earlier update follows.
\<close>

theorem modifyLeadsByPhoneAndTag_batch:
  assumes "findByPhone e (phone r) w = (Inr resp, w1)" and "data resp = Some leads"
  shows "\<exists>k wk. k \<le> length leads \<and>
           updates_succeed e (tag r) (tagFilter r) (take k leads) w1 wk \<and>
           put_requests (since w1 wk) =
             map (\<lambda>l. put_of (lead_id l) (updatedTags (tag r) (tagFilter r) (Tag l))) (take k leads) \<and>
           (if k = length leads then modifyLeadsByPhoneAndTag e r w = (Inr 200, wk)
            else \<exists>err w' evs.
                   updateLeadTag e (lead_id (leads ! k))
                      (updatedTags (tag r) (tagFilter r) (Tag (leads ! k))) wk = (Inl err, w') \<and>
                   modifyLeadsByPhoneAndTag e r w = (Inl err, w') \<and>
                   trace w' = trace wk @ evs \<and>
                   set (put_requests evs) \<subseteq>
                     {put_of (lead_id (leads ! k)) (updatedTags (tag r) (tagFilter r) (Tag (leads ! k)))})"
proof -
  let ?tg = "tag r" and ?flt = "tagFilter r"
  obtain r2 w2 where loop: "forEachLead e ?tg ?flt leads w1 = (r2, w2)" by fastforce
  from modifyLeadsByPhoneAndTag_found[OF assms] loop
  have res: "modifyLeadsByPhoneAndTag e r w =
      (case r2 of Inl err \<Rightarrow> (Inl err, w2) | Inr _ \<Rightarrow> (Inr 200, w2))"
    by (simp split: sum.splits)
  from forEachLead_run[OF loop] obtain k wk where k: "k \<le> length leads"
    and ok: "updates_succeed e ?tg ?flt (take k leads) w1 wk"
    and fin: "if k = length leads then r2 = Inr () \<and> w2 = wk
        else \<exists>err. r2 = Inl err \<and>
               updateLeadTag e (lead_id (leads ! k)) (updatedTags ?tg ?flt (Tag (leads ! k))) wk
                 = (Inl err, w2)" by blast
  from updates_succeed_puts[OF ok]
  have puts: "put_requests (since w1 wk) =
      map (\<lambda>l. put_of (lead_id l) (updatedTags ?tg ?flt (Tag l))) (take k leads)"
    by auto
  show ?thesis
  proof (cases "k = length leads")
    case True
    with fin res have "modifyLeadsByPhoneAndTag e r w = (Inr 200, wk)" by simp
    with True k ok puts show ?thesis by (intro exI[of _ k] exI[of _ wk]) simp
  next
    case False
    with fin obtain err where err: "r2 = Inl err"
      and up: "updateLeadTag e (lead_id (leads ! k)) (updatedTags ?tg ?flt (Tag (leads ! k))) wk
                 = (Inl err, w2)" by auto
    from updateLeadTag_puts[OF up] obtain evs where
      evs: "trace w2 = trace wk @ evs"
        "set (put_requests evs) \<subseteq>
           {put_of (lead_id (leads ! k)) (updatedTags ?tg ?flt (Tag (leads ! k)))}" by auto
    from err res have "modifyLeadsByPhoneAndTag e r w = (Inl err, w2)" by simp
    with up evs have "\<exists>err w' evs.
                   updateLeadTag e (lead_id (leads ! k))
                      (updatedTags ?tg ?flt (Tag (leads ! k))) wk = (Inl err, w') \<and>
                   modifyLeadsByPhoneAndTag e r w = (Inl err, w') \<and>
                   trace w' = trace wk @ evs \<and>
                   set (put_requests evs) \<subseteq>
                     {put_of (lead_id (leads ! k)) (updatedTags ?tg ?flt (Tag (leads ! k)))}"
      by blast
    with False k ok puts show ?thesis by (intro exI[of _ k] exI[of _ wk]) simp
  qed
qed

lemma updates_succeed_Cons:
  "updates_succeed e tg flt (l # ls) w w' =
     ((\<exists>b. fst (updateLeadTag e (lead_id l) (updatedTags tg flt (Tag l)) w) = Inr b) \<and>
      updates_succeed e tg flt ls (snd (updateLeadTag e (lead_id l) (updatedTags tg flt (Tag l)) w)) w')"
  by (auto split: prod.splits sum.splits)

text \<open>Three leads, the CRM rejecting the update of the second: the first update stays
  written, the second is sent and rejected, the third is never sent.\<close>

theorem modifyLeadsByPhoneAndTag_batch_witness:
  "fst (findByPhone (script_env 1000 (Inr token_answer) (crm_script (Some three_leads) [''/Leads/b'']))
          (phone retag_request) (start live_credentials)) = Inr \<lparr>data = Some three_leads\<rparr> \<and>
   length three_leads = 3 \<and>
   fst (modifyLeadsByPhoneAndTag
          (script_env 1000 (Inr token_answer) (crm_script (Some three_leads) [''/Leads/b'']))
          retag_request (start live_credentials))
     = Inl (ApiCallFailure ''Request failed with status code 500'') \<and>
   put_requests (trace (snd (modifyLeadsByPhoneAndTag
          (script_env 1000 (Inr token_answer) (crm_script (Some three_leads) [''/Leads/b'']))
          retag_request (start live_credentials))))
     = [put_of ''a'' [\<lparr>name = ''source:web''\<rparr>, \<lparr>name = ''status:contacted''\<rparr>],
        put_of ''b'' [\<lparr>name = ''status:contacted''\<rparr>]] \<and>
   (\<exists>wk. updates_succeed
            (script_env 1000 (Inr token_answer) (crm_script (Some three_leads) [''/Leads/b'']))
            (tag retag_request) (tagFilter retag_request) (take 1 three_leads)
            (snd (findByPhone (script_env 1000 (Inr token_answer) (crm_script (Some three_leads) [''/Leads/b'']))
                   (phone retag_request) (start live_credentials))) wk \<and>
          fst (updateLeadTag
            (script_env 1000 (Inr token_answer) (crm_script (Some three_leads) [''/Leads/b'']))
            (lead_id (three_leads ! 1))
            (updatedTags (tag retag_request) (tagFilter retag_request) (Tag (three_leads ! 1))) wk)
          = Inl (ApiCallFailure ''Request failed with status code 500'') \<and>
          snd (updateLeadTag
            (script_env 1000 (Inr token_answer) (crm_script (Some three_leads) [''/Leads/b'']))
            (lead_id (three_leads ! 1))
            (updatedTags (tag retag_request) (tagFilter retag_request) (Tag (three_leads ! 1))) wk)
          = snd (modifyLeadsByPhoneAndTag
              (script_env 1000 (Inr token_answer) (crm_script (Some three_leads) [''/Leads/b'']))
              retag_request (start live_credentials)))"
proof -
  let ?e = "script_env 1000 (Inr token_answer) (crm_script (Some three_leads) [''/Leads/b''])"
  let ?w = "start live_credentials"
  let ?r = retag_request
  let ?w1 = "snd (findByPhone ?e (phone ?r) ?w)"
  have f: "fst (findByPhone ?e (phone ?r) ?w) = Inr \<lparr>data = Some three_leads\<rparr>"
    by (simp add: run_defs)
  then have h1: "findByPhone ?e (phone ?r) ?w = (Inr \<lparr>data = Some three_leads\<rparr>, ?w1)"
    by (metis prod.collapse)
  have h2: "data \<lparr>data = Some three_leads\<rparr> = Some three_leads" by simp
  have len: "length three_leads = 3" by (simp add: three_leads_def)
  have m: "fst (modifyLeadsByPhoneAndTag ?e ?r ?w)
      = Inl (ApiCallFailure ''Request failed with status code 500'')"
    by (simp add: run_defs)
  have p: "put_requests (trace (snd (modifyLeadsByPhoneAndTag ?e ?r ?w)))
     = [put_of ''a'' [\<lparr>name = ''source:web''\<rparr>, \<lparr>name = ''status:contacted''\<rparr>],
        put_of ''b'' [\<lparr>name = ''status:contacted''\<rparr>]]"
    by (simp add: run_defs)
  have first_ok: "\<exists>b. fst (updateLeadTag ?e (lead_id (three_leads ! 0))
       (updatedTags (tag ?r) (tagFilter ?r) (Tag (three_leads ! 0))) ?w1) = Inr b"
    by (simp add: run_defs)
  have tk: "take 2 three_leads = [three_leads ! 0, three_leads ! 1]"
    by (simp add: three_leads_def)
  have "fst (updateLeadTag ?e (lead_id (three_leads ! 1))
           (updatedTags (tag ?r) (tagFilter ?r) (Tag (three_leads ! 1)))
           (snd (updateLeadTag ?e (lead_id (three_leads ! 0))
                   (updatedTags (tag ?r) (tagFilter ?r) (Tag (three_leads ! 0))) ?w1)))
        = Inl (ApiCallFailure ''Request failed with status code 500'')"
    by (simp add: run_defs)
  then have second_fails:
    "\<And>wk. \<not> updates_succeed ?e (tag ?r) (tagFilter ?r) (take 2 three_leads) ?w1 wk"
    unfolding tk by (simp only: updates_succeed_Cons) auto
  from modifyLeadsByPhoneAndTag_batch[OF h1 h2] obtain k wk where k: "k \<le> length three_leads"
    and ok: "updates_succeed ?e (tag ?r) (tagFilter ?r) (take k three_leads) ?w1 wk"
    and fin: "if k = length three_leads then modifyLeadsByPhoneAndTag ?e ?r ?w = (Inr 200, wk)
            else \<exists>err w' evs.
                   updateLeadTag ?e (lead_id (three_leads ! k))
                      (updatedTags (tag ?r) (tagFilter ?r) (Tag (three_leads ! k))) wk = (Inl err, w') \<and>
                   modifyLeadsByPhoneAndTag ?e ?r ?w = (Inl err, w') \<and>
                   trace w' = trace wk @ evs \<and>
                   set (put_requests evs) \<subseteq>
                     {put_of (lead_id (three_leads ! k))
                        (updatedTags (tag ?r) (tagFilter ?r) (Tag (three_leads ! k)))}"
    by blast
  have "k \<noteq> length three_leads" using fin m by auto
  with fin obtain err w' where
    up: "updateLeadTag ?e (lead_id (three_leads ! k))
           (updatedTags (tag ?r) (tagFilter ?r) (Tag (three_leads ! k))) wk = (Inl err, w')"
    and res: "modifyLeadsByPhoneAndTag ?e ?r ?w = (Inl err, w')" by auto
  have "k \<noteq> 0"
  proof
    assume "k = 0"
    with ok have "wk = ?w1" by simp
    with up \<open>k = 0\<close> first_ok show False by auto
  qed
  moreover have "k \<noteq> 2" using ok second_fails by auto
  ultimately have "k = 1" using k \<open>k \<noteq> length three_leads\<close> len by arith
  let ?P = "\<lambda>wk. updates_succeed ?e (tag ?r) (tagFilter ?r) (take 1 three_leads) ?w1 wk \<and>
      fst (updateLeadTag ?e (lead_id (three_leads ! 1))
         (updatedTags (tag ?r) (tagFilter ?r) (Tag (three_leads ! 1))) wk)
        = Inl (ApiCallFailure ''Request failed with status code 500'') \<and>
      snd (updateLeadTag ?e (lead_id (three_leads ! 1))
         (updatedTags (tag ?r) (tagFilter ?r) (Tag (three_leads ! 1))) wk)
        = snd (modifyLeadsByPhoneAndTag ?e ?r ?w)"
  from \<open>k = 1\<close> ok up res m have "?P wk" by simp
  then have ex: "\<exists>wk. ?P wk" by (rule exI[of ?P wk])
  show ?thesis
    apply (intro conjI)
        apply (rule f)
       apply (rule len)
      apply (rule m)
     apply (rule p)
    apply (rule ex)
    done
qed

section \<open>Running the by-id workflow twice\<close>

lemma put_of_inject: "put_of i ts = put_of j us \<longleftrightarrow> i = j \<and> ts = us"
  by (auto simp: put_of_def)

lemma updatedTags_twice:
  "(\<forall>t\<in>set (updatedTags tg flt (Some (updatedTags tg flt T))).
       startsWith (name t) flt \<longrightarrow> name t = tg) \<and>
   count_named tg (updatedTags tg flt (Some (updatedTags tg flt T))) =
     (if startsWith tg flt then 1
      else count_named tg (case T of None \<Rightarrow> [] | Some ts \<Rightarrow> ts) + 2)"
proof -
  let ?ts = "case T of None \<Rightarrow> [] | Some ts \<Rightarrow> ts"
  let ?keep = "filter (\<lambda>t. \<not> startsWith (name t) flt) ?ts"
  have twice: "updatedTags tg flt (Some (updatedTags tg flt T)) =
      ?keep @ (if startsWith tg flt then [] else [\<lparr>name = tg\<rparr>]) @ [\<lparr>name = tg\<rparr>]"
    by (simp add: updatedTags_def)
  have first: "\<forall>t\<in>set (?keep @ (if startsWith tg flt then [] else [\<lparr>name = tg\<rparr>]) @ [\<lparr>name = tg\<rparr>]).
      startsWith (name t) flt \<longrightarrow> name t = tg"
    by auto
  have kept: "filter (\<lambda>t. name t = tg) ?keep =
      (if startsWith tg flt then [] else filter (\<lambda>t. name t = tg) ?ts)"
    by (auto simp: filter_empty_conv intro: filter_cong)
  have second: "count_named tg (?keep @ (if startsWith tg flt then [] else [\<lparr>name = tg\<rparr>]) @ [\<lparr>name = tg\<rparr>]) =
      (if startsWith tg flt then 1 else count_named tg ?ts + 2)"
    by (simp add: count_named_def kept del: filter_filter)
  from first second show ?thesis by (simp only: twice) 
qed

lemma last_written_put_of: "last_written evs = Some ts" if "put_requests evs = [put_of i ts]"
  using that by (simp add: last_written_def put_of_def)

lemma cooperative_memory:
  "cooperative (script_env t0 (Inr a) (crm_memory i initial))"
  by (simp add: cooperative_def script_env_def crm_memory_def)

text \<open>
  Claim C3, as the code has it.  Run the by-id workflow with \<^verbatim>\<open>{id, tag, tagFilter}\<close>,
  and run it again, the second lookup finding a lead whose tags are those the first run
  wrote.  Where nothing outside fails both runs return 200.  When both return 200, each
  has written one tag list, and in the list the second run writes every tag whose name
  starts with \<^verbatim>\<open>tagFilter\<close> is named \<^verbatim>\<open>tag\<close>, whatever \<^verbatim>\<open>tag\<close> is.  The number of tags
  named \<^verbatim>\<open>tag\<close> in it is exactly one when \<^verbatim>\<open>tag\<close> starts with \<^verbatim>\<open>tagFilter\<close>; when it
  does not, no run removes the tag and each run appends it, so it stands there twice
  more often than in the lead's tags before the first run.
\<close>

theorem modifyLeadByLeadId_twice:
  assumes "findByLeadId e (req_id r) w = (Inr resp1, w1)" and "data resp1 = Some (l1 # rest1)"
    and "findByLeadId e (req_id r) w3 = (Inr resp2, w4)" and "data resp2 = Some (l2 # rest2)"
    and "Tag l2 = last_written (since w1 (snd (modifyLeadByLeadId e r w)))"
  shows "(cooperative e \<longrightarrow>
            fst (modifyLeadByLeadId e r w) = Inr 200 \<and> fst (modifyLeadByLeadId e r w3) = Inr 200) \<and>
         (fst (modifyLeadByLeadId e r w) = Inr 200 \<and> fst (modifyLeadByLeadId e r w3) = Inr 200 \<longrightarrow>
            (\<exists>T1 T2.
               put_requests (since w1 (snd (modifyLeadByLeadId e r w))) = [put_of (lead_id l1) T1] \<and>
               Tag l2 = Some T1 \<and>
               put_requests (since w4 (snd (modifyLeadByLeadId e r w3))) = [put_of (lead_id l2) T2] \<and>
               (\<forall>t\<in>set T2. startsWith (name t) (tagFilter r) \<longrightarrow> name t = tag r) \<and>
               count_named (tag r) T2 =
                 (if startsWith (tag r) (tagFilter r) then 1
                  else count_named (tag r) (case Tag l1 of None \<Rightarrow> [] | Some ts \<Rightarrow> ts) + 2)))"
proof (intro conjI impI)
  assume c: "cooperative e"
  show "fst (modifyLeadByLeadId e r w) = Inr 200"
    by (rule modifyLeadByLeadId_cooperative[OF assms(1,2) c])
  show "fst (modifyLeadByLeadId e r w3) = Inr 200"
    by (rule modifyLeadByLeadId_cooperative[OF assms(3,4) c])
next
  assume ok: "fst (modifyLeadByLeadId e r w) = Inr 200 \<and> fst (modifyLeadByLeadId e r w3) = Inr 200"
  let ?T1 = "updatedTags (tag r) (tagFilter r) (Tag l1)"
  let ?T2 = "updatedTags (tag r) (tagFilter r) (Some ?T1)"
  from modifyLeadByLeadId_puts_exact[OF assms(1,2)] ok
  have p1: "put_requests (since w1 (snd (modifyLeadByLeadId e r w))) = [put_of (lead_id l1) ?T1]"
    by simp
  with assms(5) have t2: "Tag l2 = Some ?T1" by (simp add: last_written_put_of)
  from modifyLeadByLeadId_puts_exact[OF assms(3,4)] ok t2
  have p2: "put_requests (since w4 (snd (modifyLeadByLeadId e r w3))) = [put_of (lead_id l2) ?T2]"
    by simp
  from updatedTags_twice[of "tag r" "tagFilter r" "Tag l1"]
  have props: "(\<forall>t\<in>set ?T2. startsWith (name t) (tagFilter r) \<longrightarrow> name t = tag r) \<and>
      count_named (tag r) ?T2 =
        (if startsWith (tag r) (tagFilter r) then 1
         else count_named (tag r) (case Tag l1 of None \<Rightarrow> [] | Some ts \<Rightarrow> ts) + 2)" .
  from p1 t2 p2 props
  show "\<exists>T1 T2.
               put_requests (since w1 (snd (modifyLeadByLeadId e r w))) = [put_of (lead_id l1) T1] \<and>
               Tag l2 = Some T1 \<and>
               put_requests (since w4 (snd (modifyLeadByLeadId e r w3))) = [put_of (lead_id l2) T2] \<and>
               (\<forall>t\<in>set T2. startsWith (name t) (tagFilter r) \<longrightarrow> name t = tag r) \<and>
               count_named (tag r) T2 =
                 (if startsWith (tag r) (tagFilter r) then 1
                  else count_named (tag r) (case Tag l1 of None \<Rightarrow> [] | Some ts \<Rightarrow> ts) + 2)"
    by blast
qed

text \<open>Two runs of the specification's example against a CRM that remembers what was
  written: the second run writes the same two tags as the first.\<close>

theorem modifyLeadByLeadId_twice_witness:
  "startsWith (tag retag_request) (tagFilter retag_request) \<and>
   fst (modifyLeadByLeadId
          (script_env 1000 (Inr token_answer) (crm_memory ''42'' (Tag lead_42)))
          retag_request (start live_credentials)) = Inr 200 \<and>
   fst (findByLeadId
          (script_env 1000 (Inr token_answer) (crm_memory ''42'' (Tag lead_42)))
          (req_id retag_request)
          (snd (modifyLeadByLeadId
                  (script_env 1000 (Inr token_answer) (crm_memory ''42'' (Tag lead_42)))
                  retag_request (start live_credentials))))
     = Inr \<lparr>data = Some [\<lparr>lead_id = ''42'',
                Tag = Some [\<lparr>name = ''source:web''\<rparr>, \<lparr>name = ''status:contacted''\<rparr>]\<rparr>]\<rparr> \<and>
   fst (modifyLeadByLeadId
          (script_env 1000 (Inr token_answer) (crm_memory ''42'' (Tag lead_42)))
          retag_request
          (snd (modifyLeadByLeadId
                  (script_env 1000 (Inr token_answer) (crm_memory ''42'' (Tag lead_42)))
                  retag_request (start live_credentials)))) = Inr 200 \<and>
   put_requests (since
      (snd (findByLeadId
          (script_env 1000 (Inr token_answer) (crm_memory ''42'' (Tag lead_42)))
          (req_id retag_request)
          (snd (modifyLeadByLeadId
                  (script_env 1000 (Inr token_answer) (crm_memory ''42'' (Tag lead_42)))
                  retag_request (start live_credentials)))))
      (snd (modifyLeadByLeadId
          (script_env 1000 (Inr token_answer) (crm_memory ''42'' (Tag lead_42)))
          retag_request
          (snd (modifyLeadByLeadId
                  (script_env 1000 (Inr token_answer) (crm_memory ''42'' (Tag lead_42)))
                  retag_request (start live_credentials))))))
     = [put_of ''42'' [\<lparr>name = ''source:web''\<rparr>, \<lparr>name = ''status:contacted''\<rparr>]] \<and>
   count_named (tag retag_request) [\<lparr>name = ''source:web''\<rparr>, \<lparr>name = ''status:contacted''\<rparr>] = 1"
proof -
  let ?e = "script_env 1000 (Inr token_answer) (crm_memory ''42'' (Tag lead_42))"
  let ?r = retag_request
  let ?w = "start live_credentials"
  let ?w1 = "snd (findByLeadId ?e (req_id ?r) ?w)"
  let ?w2 = "snd (modifyLeadByLeadId ?e ?r ?w)"
  let ?w4 = "snd (findByLeadId ?e (req_id ?r) ?w2)"
  let ?w5 = "snd (modifyLeadByLeadId ?e ?r ?w2)"
  let ?T1 = "[\<lparr>name = ''source:web''\<rparr>, \<lparr>name = ''status:contacted''\<rparr>]"
  let ?l2 = "\<lparr>lead_id = ''42'', Tag = Some ?T1\<rparr>"
  have h0: "startsWith (tag ?r) (tagFilter ?r)" by (simp add: retag_request_def)
  have "fst (findByLeadId ?e (req_id ?r) ?w) = Inr \<lparr>data = Some [lead_42]\<rparr>"
    by (simp add: run_defs)
  then have h1: "findByLeadId ?e (req_id ?r) ?w = (Inr \<lparr>data = Some [lead_42]\<rparr>, ?w1)"
    by (metis prod.collapse)
  have h2: "data \<lparr>data = Some [lead_42]\<rparr> = Some (lead_42 # [])" by simp
  have f2: "fst (findByLeadId ?e (req_id ?r) ?w2) = Inr \<lparr>data = Some [?l2]\<rparr>"
    by (simp add: run_defs)
  then have h3: "findByLeadId ?e (req_id ?r) ?w2 = (Inr \<lparr>data = Some [?l2]\<rparr>, ?w4)"
    by (metis prod.collapse)
  have h4: "data \<lparr>data = Some [?l2]\<rparr> = Some (?l2 # [])" by simp
  have "last_written (since ?w1 ?w2) = Some ?T1"
    by (simp add: run_defs last_written_def)
  then have h5: "Tag ?l2 = last_written (since ?w1 ?w2)" by simp
  have c: "cooperative ?e" by (rule cooperative_memory)
  note T = modifyLeadByLeadId_twice[OF h1 h2 h3 h4 h5]
  from T[THEN conjunct1, THEN mp, OF c]
  have m: "fst (modifyLeadByLeadId ?e ?r ?w) = Inr 200 \<and> fst (modifyLeadByLeadId ?e ?r ?w2) = Inr 200" .
  from T[THEN conjunct2, THEN mp, OF m] obtain U1 T2 where
    T2: "put_requests (since ?w4 ?w5) = [put_of (lead_id ?l2) T2]"
      "count_named (tag ?r) T2 =
         (if startsWith (tag ?r) (tagFilter ?r) then 1
          else count_named (tag ?r) (case Tag lead_42 of None \<Rightarrow> [] | Some ts \<Rightarrow> ts) + 2)"
    by blast
  have p: "put_requests (since ?w4 ?w5) = [put_of ''42'' ?T1]" by (simp add: run_defs)
  from T2(1) p have "T2 = ?T1" by (simp add: put_of_inject)
  with T2(2) h0 have cnt: "count_named (tag ?r) ?T1 = 1" by (simp only: if_True)
  show ?thesis
    apply (intro conjI)
         apply (rule h0)
        apply (rule m[THEN conjunct1])
       apply (rule f2)
      apply (rule m[THEN conjunct2])
     apply (rule p)
    apply (rule cnt)
    done
qed

text \<open>
  Claim C3 as worded covers every \<^verbatim>\<open>tag\<close>.  With \<^verbatim>\<open>tag = "vip"\<close> and
  \<^verbatim>\<open>tagFilter = "status:"\<close> the tag written by the first run does not match the filter,
  so the second run keeps it and appends another: two tags equal \<^verbatim>\<open>tag\<close>.
\<close>

theorem modifyLeadByLeadId_twice_duplicate_counterexample:
  "req_id (retag_request\<lparr>tag := ''vip''\<rparr>) = ''42'' \<and>
   tagFilter (retag_request\<lparr>tag := ''vip''\<rparr>) = ''status:'' \<and>
   fst (modifyLeadByLeadId
          (script_env 1000 (Inr token_answer) (crm_memory ''42'' None))
          (retag_request\<lparr>tag := ''vip''\<rparr>) (start live_credentials)) = Inr 200 \<and>
   fst (findByLeadId
          (script_env 1000 (Inr token_answer) (crm_memory ''42'' None)) ''42''
          (snd (modifyLeadByLeadId
                  (script_env 1000 (Inr token_answer) (crm_memory ''42'' None))
                  (retag_request\<lparr>tag := ''vip''\<rparr>) (start live_credentials))))
     = Inr \<lparr>data = Some [\<lparr>lead_id = ''42'', Tag = Some [\<lparr>name = ''vip''\<rparr>]\<rparr>]\<rparr> \<and>
   fst (modifyLeadByLeadId
          (script_env 1000 (Inr token_answer) (crm_memory ''42'' None))
          (retag_request\<lparr>tag := ''vip''\<rparr>)
          (snd (modifyLeadByLeadId
                  (script_env 1000 (Inr token_answer) (crm_memory ''42'' None))
                  (retag_request\<lparr>tag := ''vip''\<rparr>) (start live_credentials)))) = Inr 200 \<and>
   put_requests (trace (snd (modifyLeadByLeadId
       (script_env 1000 (Inr token_answer) (crm_memory ''42'' None))
       (retag_request\<lparr>tag := ''vip''\<rparr>)
       (snd (modifyLeadByLeadId
          (script_env 1000 (Inr token_answer) (crm_memory ''42'' None))
          (retag_request\<lparr>tag := ''vip''\<rparr>) (start live_credentials))))))
    = [put_of ''42'' [\<lparr>name = ''vip''\<rparr>],
       put_of ''42'' [\<lparr>name = ''vip''\<rparr>, \<lparr>name = ''vip''\<rparr>]] \<and>
   count_named ''vip'' [\<lparr>name = ''vip''\<rparr>, \<lparr>name = ''vip''\<rparr>] = 2"
  by (simp add: run_defs)

end
